theory Spec2Isabelle
  imports Complex_Main
begin

section \<open>Numeric data\<close>

text \<open>
  A three-component row of a numpy array, a 4x4 homogeneous matrix (a \<open>Matrix44\<close> or a 4x4
  \<open>ndarray\<close>, indexed row then column), and a three-axis \<open>ndarray\<close>: its shape and its
  entries. Floating-point numbers are read as reals.
\<close>

type_synonym vec3 = "real \<times> real \<times> real"

type_synonym matrix44 = "nat \<Rightarrow> nat \<Rightarrow> real"

record array3 =
  shape0 :: nat
  shape1 :: nat
  shape2 :: nat
  elem :: "nat \<Rightarrow> nat \<Rightarrow> nat \<Rightarrow> real"

datatype py_error = IndexError | ValueError | KeyError | AttributeError

text \<open>
  \<open>np.identity(4)\<close>, \<open>A.transpose()\<close>, \<open>A @ B\<close> for 4x4 matrices, and
  \<open>p @ M[0:3, 0:3]\<close> for a row \<open>p\<close>.
\<close>

definition identity44 :: matrix44 where
  "identity44 = (\<lambda>r c. if r = c then 1 else 0)"

definition transpose44 :: "matrix44 \<Rightarrow> matrix44" where
  "transpose44 A = (\<lambda>r c. A c r)"

definition matmul44 :: "matrix44 \<Rightarrow> matrix44 \<Rightarrow> matrix44" where
  "matmul44 A B = (\<lambda>r c. A r 0 * B 0 c + A r 1 * B 1 c + A r 2 * B 2 c + A r 3 * B 3 c)"

definition row_matmul33 :: "vec3 \<Rightarrow> matrix44 \<Rightarrow> vec3" where
  "row_matmul33 p M = (case p of (x, y, z) \<Rightarrow>
     (x * M 0 0 + y * M 1 0 + z * M 2 0,
      x * M 0 1 + y * M 1 1 + z * M 2 1,
      x * M 0 2 + y * M 1 2 + z * M 2 2))"

definition vec_add :: "vec3 \<Rightarrow> vec3 \<Rightarrow> vec3" where
  "vec_add p t = (case p of (x, y, z) \<Rightarrow> case t of (a, b, c) \<Rightarrow> (x + a, y + b, z + c))"

text \<open>
  \<open>M[0:3, 0:3] @ v\<close> for a column \<open>v\<close>; with \<open>M = P.transpose()\<close> this is the
  \<open>pose[0:3, 0:3].transpose() @ q_vec[0]\<close> of the task loop.
\<close>

definition matmul33_col :: "matrix44 \<Rightarrow> vec3 \<Rightarrow> vec3" where
  "matmul33_col M v = (case v of (x, y, z) \<Rightarrow>
     (M 0 0 * x + M 0 1 * y + M 0 2 * z,
      M 1 0 * x + M 1 1 * y + M 1 2 * z,
      M 2 0 * x + M 2 1 * y + M 2 2 * z))"

text \<open>
  Indexing the first axis with a boolean mask, \<open>a[mask, :, :]\<close>: numpy raises \<open>IndexError\<close>
  when the mask's length is not the length of the axis, and otherwise keeps the rows whose
  mask entry is true, in order.
\<close>

definition nonzero :: "bool list \<Rightarrow> nat list" where
  "nonzero keep = filter (\<lambda>i. keep ! i) [0..<length keep]"

definition mask_rows :: "array3 \<Rightarrow> bool list \<Rightarrow> py_error + array3" where
  "mask_rows a keep =
     (if length keep \<noteq> shape0 a then Inl IndexError
      else Inr (a\<lparr>shape0 := length (nonzero keep),
                  elem := (\<lambda>i. elem a (nonzero keep ! i))\<rparr>))"

section \<open>Task enumeration\<close>

text \<open>
  The two list comprehensions of \<open>Simulation.execute\<close>:
  \<^verbatim>\<open>[(i, j) for i in range(shape[0]) for j in range(shape[2])]\<close> when
  \<open>align_first_order\<close> is set, else
  \<^verbatim>\<open>[(i, j) for j in range(shape[2]) for i in range(shape[0])]\<close>.
\<close>

definition task_order :: "bool \<Rightarrow> nat \<Rightarrow> nat \<Rightarrow> (nat \<times> nat) list" where
  "task_order align_first n k =
     (if align_first then concat (map (\<lambda>i. map (\<lambda>j. (i, j)) [0..<k]) [0..<n])
      else concat (map (\<lambda>j. map (\<lambda>i. (i, j)) [0..<n]) [0..<k]))"

section \<open>Results and the result channel\<close>

text \<open>
  The exit status of the inverse-kinematics solver (\<open>positioner.ik_solver.Status\<close>, as the
  result dialog reads it), and \<open>SimulationResult\<close>: the error pair is a position error and an
  orientation error about three axes.
\<close>

datatype solver_status = Converged | NotConverged | Failed

record simulation_result =
  result_id :: string
  q :: "real list"
  error :: "real \<times> vec3"
  code :: solver_status
  alignment :: nat
  joint_labels :: "string list"
  formatted :: "real list"
  path_length :: "real list option"
  collision_mask :: "bool list option"

text \<open>
  What travels on the \<open>multiprocessing.Queue\<close>: a \<open>SimulationResult\<close>, the string
  \<open>'Error'\<close> the Worker puts from its exception handler, and the \<open>None\<close> that
  \<open>CheckResult\<close> puts to bound its drain.
\<close>

datatype message = Result simulation_result | ErrorString | NoneSentinel

text \<open>
  \<open>Queue.put\<close> on a queue built with a positive \<open>maxsize\<close> blocks while the queue is full
  (\<open>None\<close> here: the call has not returned); a \<open>maxsize\<close> of zero is unbounded.
\<close>

definition queue_put :: "nat \<Rightarrow> message list \<Rightarrow> message \<Rightarrow> message list option" where
  "queue_put maxsize queue x =
     (if maxsize = 0 \<or> length queue < maxsize then Some (queue @ [x]) else None)"

text \<open>
  \<^verbatim>\<open>for result in iter(queue.get, None)\<close>: the items up to the first \<open>None\<close>, which is
  consumed, and the rest of the queue. On a queue that holds no \<open>None\<close> the \<open>get\<close> blocks.
\<close>

fun drain :: "message list \<Rightarrow> (message list \<times> message list) option" where
  "drain [] = None"
| "drain (NoneSentinel # rest) = Some ([], rest)"
| "drain (x # rest) =
     (case drain rest of None \<Rightarrow> None | Some (got, left) \<Rightarrow> Some (x # got, left))"

section \<open>Configuration\<close>

text \<open>
  The keys of the \<open>args\<close> dictionary that \<open>Simulation.__init__\<close> fills and \<open>execute\<close> reads.
  The positioning stack is an object of the instrument model with a state of its own
  (\<open>'ps\<close>); sample meshes (\<open>'mesh\<close>) and scene nodes (\<open>'node\<close>) are opaque. The shared
  \<open>RawArray\<close> of path lengths is present once \<open>compute_path_length\<close> has been switched on,
  and is read through its three-axis view.
\<close>

record ikine_kwargs =
  local_max_eval :: int
  global_max_eval :: int
  tol :: "real \<times> real"
  bounded :: bool

record ('ps, 'mesh, 'node) args =
  ikine_kwargs :: ikine_kwargs
  align_first_order :: bool
  positioner :: 'ps
  points :: "vec3 list"
  vectors :: array3
  results :: "message list"
  results_maxsize :: nat
  exit_event :: bool
  sample :: "'mesh list"
  beam_axis :: vec3
  gauge_volume :: vec3
  q_vectors :: "vec3 list"
  diff_axis :: "vec3 list"
  beam_in_gauge :: bool
  instrument_scene :: "'node list \<times> (string \<times> nat) list"
  scene_size :: nat
  compute_path_length :: bool
  render_graphics :: bool
  check_collision :: bool
  path_lengths :: "(nat \<Rightarrow> nat \<Rightarrow> nat \<Rightarrow> real) option"

text \<open>The global settings read at construction, and the attributes of the instrument.\<close>

record settings =
  Local_Max_Eval :: int
  Global_Max_Eval :: int
  Position_Stop_Val :: real
  Angular_Stop_Val :: real
  Align_First :: bool

record 'ps instrument =
  positioning_stack :: 'ps
  jaws_beam_direction :: vec3
  instrument_gauge_volume :: vec3
  instrument_q_vectors :: "vec3 list"
  detectors :: "(string \<times> vec3) list"
  beam_in_gauge_volume :: bool

section \<open>Collaborators\<close>

text \<open>
  The code the simulation calls and this development does not look into: the positioning stack
  (\<open>ikine\<close>, \<open>fkine\<close>, \<open>tool_link\<close>, \<open>pose\<close>, \<open>toUserFormat\<close>, the names of its links in
  order, the nodes of its flattened model), \<open>Mesh.transformed\<close>, the path-length routine, the
  transform of a scene node, \<open>createInstrumentNode\<close>, the value of \<open>Attributes.Positioner\<close>
  and the broad-phase test of the collision engine. A method of the positioning stack takes
  and returns the stack's state; \<open>None\<close> is a raised exception.
\<close>

record ('ps, 'mesh, 'node) externals =
  ikine :: "'ps \<Rightarrow> vec3 \<times> vec3 list \<Rightarrow> vec3 \<times> vec3 list \<Rightarrow> ikine_kwargs
              \<Rightarrow> ((real list \<times> (real \<times> vec3) \<times> solver_status) \<times> 'ps) option"
  fkine :: "'ps \<Rightarrow> real list \<Rightarrow> (matrix44 \<times> 'ps) option"
  tool_link :: "'ps \<Rightarrow> matrix44"
  pose :: "'ps \<Rightarrow> matrix44"
  toUserFormat :: "'ps \<Rightarrow> real list \<Rightarrow> real list option"
  link_names :: "'ps \<Rightarrow> string list"
  model_children :: "'ps \<Rightarrow> 'node list option"
  node_transform :: "'node \<Rightarrow> matrix44"
  transformed :: "'mesh \<Rightarrow> matrix44 \<Rightarrow> 'mesh"
  path_length_calculation :: "'mesh \<Rightarrow> vec3 \<Rightarrow> vec3 \<Rightarrow> vec3 list \<Rightarrow> real list option"
  createInstrumentNode :: "'ps instrument \<Rightarrow> 'node list \<times> (string \<times> nat) list"
  Positioner_value :: string
  boxes_intersect :: "(('mesh + 'node) \<times> matrix44 option) list \<Rightarrow> nat \<Rightarrow> nat \<Rightarrow> bool"

section \<open>The Controller: class Simulation\<close>

text \<open>
  The attributes of a \<open>Simulation\<close> object. \<open>timer\<close> is whether the \<open>QTimer\<close> is active,
  \<open>process\<close> is \<open>None\<close> before \<open>start\<close> and afterwards holds what \<open>is_alive()\<close> answers,
  \<open>result_updated\<close> counts the emissions of the signal of that name.
\<close>

record ('ps, 'mesh, 'node) simulation =
  timer :: bool
  sim_args :: "('ps, 'mesh, 'node) args"
  sim_results :: "message list"
  process :: "bool option"
  shape :: "nat \<times> nat \<times> nat"
  count :: nat
  detector_names :: "string list"
  result_updated :: nat

text \<open>
  \<open>Simulation.__init__\<close>. The measurement points are a record array whose rows pair a position
  with its \<open>enabled\<close> flag; the sample is a dictionary of meshes, in insertion order. Two
  statements can raise: the boolean-mask indexing of \<open>vectors\<close>, and the product of a block of
  fewer than three columns with the 3x3 rotation, when the second axis of \<open>vectors\<close> is not a
  multiple of three and there is an alignment to loop over.
\<close>

definition Simulation_init ::
  "settings \<Rightarrow> ('ps, 'mesh, 'node) externals \<Rightarrow> 'ps instrument \<Rightarrow> (string \<times> 'mesh) list
     \<Rightarrow> (vec3 \<times> bool) list \<Rightarrow> array3 \<Rightarrow> matrix44 \<Rightarrow> py_error + ('ps, 'mesh, 'node) simulation"
where
  "Simulation_init S X instr smp pts vecs algn =
     (case mask_rows vecs (map snd pts) of
        Inl e \<Rightarrow> Inl e
      | Inr v \<Rightarrow>
          if 0 < shape2 v \<and> shape1 v mod 3 \<noteq> 0 then Inl ValueError
          else
            let cnt = shape0 v * shape2 v;
                matrix = transpose44 algn;
                scene = createInstrumentNode X instr;
                meshes = map (\<lambda>(key, mesh). transformed X mesh algn) smp
            in Inr \<lparr>timer = False,
                 sim_args = \<lparr>
                   ikine_kwargs = \<lparr>local_max_eval = Local_Max_Eval S,
                                   global_max_eval = Global_Max_Eval S,
                                   tol = (Position_Stop_Val S, Angular_Stop_Val S),
                                   bounded = True\<rparr>,
                   align_first_order = Align_First S,
                   positioner = positioning_stack instr,
                   points = map (\<lambda>p. vec_add (row_matmul33 p matrix)
                                         (matrix 3 0, matrix 3 1, matrix 3 2))
                                (map fst (filter snd pts)),
                   vectors = v\<lparr>elem := (\<lambda>i m k.
                       elem v i (3 * (m div 3)) k * matrix 0 (m mod 3)
                     + elem v i (3 * (m div 3) + 1) k * matrix 1 (m mod 3)
                     + elem v i (3 * (m div 3) + 2) k * matrix 2 (m mod 3))\<rparr>,
                   results = [],
                   results_maxsize = cnt + 1,
                   exit_event = False,
                   sample = meshes,
                   beam_axis = jaws_beam_direction instr,
                   gauge_volume = instrument_gauge_volume instr,
                   q_vectors = instrument_q_vectors instr,
                   diff_axis = map snd (detectors instr),
                   beam_in_gauge = beam_in_gauge_volume instr,
                   instrument_scene = scene,
                   scene_size = length (fst scene) + length meshes,
                   compute_path_length = False,
                   render_graphics = False,
                   check_collision = False,
                   path_lengths = None\<rparr>,
                 sim_results = [],
                 process = None,
                 shape = (shape0 v, shape1 v div 3, shape2 v),
                 count = cnt,
                 detector_names = map fst (detectors instr),
                 result_updated = 0\<rparr>)"

text \<open>
  The property setters. Switching \<open>compute_path_length\<close> on allocates a fresh array of zeros;
  switching it off leaves an array allocated earlier in place.
\<close>

definition set_compute_path_length ::
  "bool \<Rightarrow> ('ps, 'mesh, 'node) simulation \<Rightarrow> ('ps, 'mesh, 'node) simulation" where
  "set_compute_path_length b sim =
     sim\<lparr>sim_args := (sim_args sim)\<lparr>compute_path_length := b,
            path_lengths := (if b then Some (\<lambda>i d j. 0) else path_lengths (sim_args sim))\<rparr>\<rparr>"

definition set_check_collision ::
  "bool \<Rightarrow> ('ps, 'mesh, 'node) simulation \<Rightarrow> ('ps, 'mesh, 'node) simulation" where
  "set_check_collision b sim = sim\<lparr>sim_args := (sim_args sim)\<lparr>check_collision := b\<rparr>\<rparr>"

definition set_render_graphics ::
  "bool \<Rightarrow> ('ps, 'mesh, 'node) simulation \<Rightarrow> ('ps, 'mesh, 'node) simulation" where
  "set_render_graphics b sim = sim\<lparr>sim_args := (sim_args sim)\<lparr>render_graphics := b\<rparr>\<rparr>"

definition set_check_limits ::
  "bool \<Rightarrow> ('ps, 'mesh, 'node) simulation \<Rightarrow> ('ps, 'mesh, 'node) simulation" where
  "set_check_limits b sim =
     sim\<lparr>sim_args := (sim_args sim)\<lparr>ikine_kwargs := (ikine_kwargs (sim_args sim))\<lparr>bounded := b\<rparr>\<rparr>\<rparr>"

text \<open>\<open>start\<close>, \<open>isRunning\<close> and \<open>abort\<close>.\<close>

definition start :: "('ps, 'mesh, 'node) simulation \<Rightarrow> ('ps, 'mesh, 'node) simulation" where
  "start sim = sim\<lparr>process := Some True, timer := True\<rparr>"

definition isRunning :: "('ps, 'mesh, 'node) simulation \<Rightarrow> bool" where
  "isRunning sim =
     (case process sim of None \<Rightarrow> False | Some alive \<Rightarrow> alive \<and> \<not> exit_event (sim_args sim))"

definition abort :: "('ps, 'mesh, 'node) simulation \<Rightarrow> ('ps, 'mesh, 'node) simulation" where
  "abort sim = sim\<lparr>sim_args := (sim_args sim)\<lparr>exit_event := True\<rparr>, timer := False\<rparr>"

text \<open>
  \<open>CheckResult\<close>, the slot of the timer, run with no \<open>put\<close> of the Worker in between its
  statements. A call returns the object it leaves, raises, or blocks inside the queue.
\<close>

datatype 'a call = Returns 'a | Raises py_error | Blocks

definition CheckResult :: "('ps, 'mesh, 'node) simulation \<Rightarrow> ('ps, 'mesh, 'node) simulation call" where
  "CheckResult sim =
     (if results (sim_args sim) = [] then Returns sim
      else
        case process sim of
          None \<Rightarrow> Raises AttributeError
        | Some alive \<Rightarrow>
            (let sim1 = (if \<not> alive then sim\<lparr>timer := False\<rparr> else sim) in
             (case queue_put (results_maxsize (sim_args sim1)) (results (sim_args sim1))
                     NoneSentinel of
                None \<Rightarrow> Blocks
              | Some queue \<Rightarrow>
                  (case drain queue of
                     None \<Rightarrow> Blocks
                   | Some (got, left) \<Rightarrow>
                       Returns (sim1\<lparr>sim_args := (sim_args sim1)\<lparr>results := left\<rparr>,
                                     sim_results := sim_results sim1 @ got,
                                     result_updated := result_updated sim1 + 1\<rparr>)))))"

section \<open>The collision manager\<close>

text \<open>
  Modelled from the spec: the class \<open>CollisionManager\<close> of the module \<open>collision\<close>, which
  is not among the sources. The spec gives its interface: \<open>clear()\<close>;
  \<open>addColliders(nodes, transforms, exclusion_policy, movable)\<close> with the policies None,
  Consecutive (excludes collision checks between consecutive items added in the same call)
  and All (excludes all pairs within the group); \<open>createAABBSets()\<close>, which rebuilds the
  broad-phase bounds after transforms change; \<open>collide()\<close>, a sequence of booleans giving,
  per collider, whether it participates in any detected collision. From its use in
  \<open>populate_collision_manager\<close> and \<open>update_colliders\<close>: a collider has an \<open>id\<close>, which is
  its position in \<open>manager.colliders\<close>, an \<open>excludes\<close> table indexed by collider id, and a
  geometry that \<open>transform\<close> moves.
\<close>

datatype exclude = Exclude_Nothing | Exclude_Consecutive | Exclude_All

record ('mesh, 'node) collider =
  cid :: nat
  geometry :: "'mesh + 'node"
  transform :: "matrix44 option"
  excludes :: "nat \<Rightarrow> bool"
  movable :: bool

record ('mesh, 'node) collision_manager =
  max_size :: nat
  colliders :: "('mesh, 'node) collider list"
  aabb :: "(('mesh + 'node) \<times> matrix44 option) list"

definition CollisionManager :: "nat \<Rightarrow> ('mesh, 'node) collision_manager" where
  "CollisionManager n = \<lparr>max_size = n, colliders = [], aabb = []\<rparr>"

definition clear :: "('mesh, 'node) collision_manager \<Rightarrow> ('mesh, 'node) collision_manager" where
  "clear m = m\<lparr>colliders := [], aabb := []\<rparr>"

definition group_excludes :: "exclude \<Rightarrow> nat \<Rightarrow> nat \<Rightarrow> nat \<Rightarrow> nat \<Rightarrow> bool" where
  "group_excludes policy first n own other =
     (case policy of
        Exclude_Nothing \<Rightarrow> False
      | Exclude_Consecutive \<Rightarrow>
          first \<le> other \<and> other < first + n \<and> (other + 1 = own \<or> other = own + 1)
      | Exclude_All \<Rightarrow> first \<le> other \<and> other < first + n)"

definition addColliders ::
  "('mesh, 'node) collision_manager \<Rightarrow> ('mesh + 'node) list \<Rightarrow> matrix44 option list \<Rightarrow> exclude
     \<Rightarrow> bool \<Rightarrow> ('mesh, 'node) collision_manager" where
  "addColliders m geoms transforms policy mov =
     (let first = length (colliders m); items = zip geoms transforms in
      m\<lparr>colliders := colliders m @
           map (\<lambda>(k, g, t). \<lparr>cid = first + k, geometry = g, transform = t,
                              excludes = group_excludes policy first (length items) (first + k),
                              movable = mov\<rparr>)
               (zip [0..<length items] items)\<rparr>)"

definition createAABBSets ::
  "('mesh, 'node) collision_manager \<Rightarrow> ('mesh, 'node) collision_manager" where
  "createAABBSets m = m\<lparr>aabb := map (\<lambda>c. (geometry c, transform c)) (colliders m)\<rparr>"

text \<open>
  A pair of colliders is tested unless one excludes the other; the test itself is the
  engine's, on the bounds built last.
\<close>

definition detected ::
  "('ps, 'mesh, 'node) externals \<Rightarrow> ('mesh, 'node) collision_manager \<Rightarrow> ('mesh, 'node) collider
     \<Rightarrow> ('mesh, 'node) collider \<Rightarrow> bool" where
  "detected X m c d =
     (cid c \<noteq> cid d \<and> \<not> excludes c (cid d) \<and> \<not> excludes d (cid c)
      \<and> boxes_intersect X (aabb m) (cid c) (cid d))"

definition collide ::
  "('ps, 'mesh, 'node) externals \<Rightarrow> ('mesh, 'node) collision_manager \<Rightarrow> bool list" where
  "collide X m = map (\<lambda>c. list_ex (detected X m c) (colliders m)) (colliders m)"

section \<open>Populating and updating the colliders\<close>

text \<open>
  The inner loop of \<open>populate_collision_manager\<close>: \<open>last_link_collider\<close> is the last entry of
  \<open>manager.colliders\<close> and \<open>obj\<close> its entry \<open>index\<close>; both are references into the list, so
  the two assignments are two updates of the list, the second of which sees the first.
\<close>

definition exclude_pair ::
  "('mesh, 'node) collider list \<Rightarrow> nat \<Rightarrow> ('mesh, 'node) collider list" where
  "exclude_pair cs index =
     (let tool = length cs - 1;
          cs1 = cs[index := (cs ! index)\<lparr>excludes := (excludes (cs ! index))(cid (cs ! tool) := True)\<rparr>]
      in cs1[tool := (cs1 ! tool)\<lparr>excludes := (excludes (cs1 ! tool))(index := True)\<rparr>])"

text \<open>
  The loop over \<open>indices.items()\<close>, with \<open>start_index\<close> and \<open>positioner_ids\<close> as they stand
  before the entry. A slice \<open>children[start:end]\<close> is \<open>take (end - start) (drop start children)\<close>.
  \<open>manager.colliders[-1]\<close> raises \<open>IndexError\<close> on an empty list.
\<close>

fun populate_loop ::
  "('ps, 'mesh, 'node) externals \<Rightarrow> nat \<Rightarrow> 'node list \<Rightarrow> ('mesh, 'node) collision_manager
     \<Rightarrow> nat \<Rightarrow> nat list \<Rightarrow> (string \<times> nat) list
     \<Rightarrow> py_error + (('mesh, 'node) collision_manager \<times> nat list)" where
  "populate_loop X n_sample children m start_index positioner_ids [] = Inr (m, positioner_ids)"
| "populate_loop X n_sample children m start_index positioner_ids ((name, end_index) # rest) =
     (let attribute_node = take (end_index - start_index) (drop start_index children) in
      if name = Positioner_value X then
        (if colliders m = [] then Inl IndexError
         else
           let start_id = cid (last (colliders m)) + 1;
               m1 = addColliders m (map Inr attribute_node)
                      (map (\<lambda>n. Some (node_transform X n)) attribute_node)
                      Exclude_Consecutive True;
               cs = foldl exclude_pair (colliders m1)
                      [0..<min n_sample (length (colliders m1))];
               last_id = cid (last cs)
           in populate_loop X n_sample children (m1\<lparr>colliders := cs\<rparr>) end_index
                (positioner_ids @ [start_id..<last_id + 1]) rest)
      else
        populate_loop X n_sample children
          (addColliders m (map Inr attribute_node)
             (replicate (length attribute_node) None) Exclude_Consecutive False)
          end_index positioner_ids rest)"

definition populate_collision_manager ::
  "('ps, 'mesh, 'node) externals \<Rightarrow> ('mesh, 'node) collision_manager \<Rightarrow> 'mesh list \<Rightarrow> matrix44
     \<Rightarrow> 'node list \<times> (string \<times> nat) list
     \<Rightarrow> py_error + (('mesh, 'node) collision_manager \<times> nat list \<times> nat list)" where
  "populate_collision_manager X manager smp sample_pose instrument_node =
     (let m0 = addColliders (clear manager) (map Inl smp)
                 (replicate (length smp) (Some sample_pose)) Exclude_All True
      in case populate_loop X (length smp) (fst instrument_node) m0 0 [] (snd instrument_node) of
           Inl e \<Rightarrow> Inl e
         | Inr (m, positioner_ids) \<Rightarrow> Inr (createAABBSets m, [0..<length smp], positioner_ids))"

text \<open>
  \<open>update_colliders\<close>: \<open>manager.colliders[i]\<close> raises \<open>IndexError\<close> past the end of the list
  (\<open>None\<close> here); \<open>zip\<close> stops at the shorter of its arguments.
\<close>

fun transform_colliders ::
  "(nat \<times> matrix44) list \<Rightarrow> ('mesh, 'node) collider list \<Rightarrow> ('mesh, 'node) collider list option"
where
  "transform_colliders [] cs = Some cs"
| "transform_colliders ((i, t) # rest) cs =
     (if i < length cs then transform_colliders rest (cs[i := (cs ! i)\<lparr>transform := Some t\<rparr>])
      else None)"

definition update_colliders ::
  "('ps, 'mesh, 'node) externals \<Rightarrow> ('mesh, 'node) collision_manager \<Rightarrow> matrix44 \<Rightarrow> nat list
     \<Rightarrow> 'node list \<Rightarrow> nat list \<Rightarrow> ('mesh, 'node) collision_manager option" where
  "update_colliders X manager sample_pose sample_ids positioner_nodes positioner_ids =
     (case transform_colliders (map (\<lambda>i. (i, sample_pose)) sample_ids) (colliders manager) of
        None \<Rightarrow> None
      | Some cs1 \<Rightarrow>
          (case transform_colliders
                  (zip positioner_ids (map (node_transform X) positioner_nodes)) cs1 of
             None \<Rightarrow> None
           | Some cs2 \<Rightarrow> Some (createAABBSets (manager\<lparr>colliders := cs2\<rparr>))))"

section \<open>The Worker: Simulation.execute\<close>

subsection \<open>Labels\<close>

text \<open>Python's \<open>str\<close> of a natural number, and the f-string that labels a result.\<close>

function str :: "nat \<Rightarrow> string" where
  "str n = (if n < 10 then [char_of (48 + n)] else str (n div 10) @ [char_of (48 + n mod 10)])"
  by pat_completeness auto
termination
  by (relation "measure id") auto

declare str.simps [simp del]

definition label :: "nat \<Rightarrow> nat \<Rightarrow> nat \<Rightarrow> nat \<Rightarrow> string" where
  "label n_alignments index i j =
     (if 1 < n_alignments
      then ''# '' @ str (index + 1) @ '' - Point '' @ str (i + 1) @ '', Alignment '' @ str (j + 1)
      else ''Point '' @ str (i + 1))"

subsection \<open>State and trace\<close>

text \<open>
  What a run changes: the state of the positioning stack, the view \<open>path_lengths\<close> of the
  shared array (bound only when path lengths are computed), the collision manager with the
  ids \<open>populate_collision_manager\<close> returned (bound only when collisions are checked), the
  queue \<open>results\<close> and the event \<open>exit_event\<close>. \<open>checks\<close> counts the calls of
  \<open>exit_event.is_set()\<close> so far. \<open>trace\<close> lists, in order, what the Worker has done: the two
  \<open>logger.info\<close> lines of a task, each call of \<open>ikine\<close> with its targets and q-vectors, each
  answer of \<open>is_set()\<close>, the mesh and pose of each path-length computation, each assignment
  to a cell of the path-length array, each collision query (the \<open>excludes\<close> tables of the
  colliders it ran on, and its answer), each \<open>put\<close>, the rendering sleep, and the two ways
  the \<open>try\<close> block ends.
\<close>

datatype 'mesh event =
    Started nat nat
  | IkineCall nat nat vec3 "vec3 list" "vec3 list"
  | IsSet bool
  | PathLengthCall 'mesh matrix44
  | WriteCell nat nat "real list"
  | CollisionQuery "(nat \<Rightarrow> bool) list" "bool list"
  | Put message
  | Slept
  | Finished nat nat
  | SimulationFinished
  | ExceptionLogged

record ('ps, 'mesh, 'node) worker =
  stack :: 'ps
  lengths :: "(nat \<Rightarrow> nat \<Rightarrow> nat \<Rightarrow> real) option"
  manager :: "('mesh, 'node) collision_manager option"
  sample_ids :: "nat list"
  positioner_ids :: "nat list"
  queue :: "message list"
  event_set :: bool
  checks :: nat
  trace :: "'mesh event list"

definition log ::
  "'mesh event list \<Rightarrow> ('ps, 'mesh, 'node) worker \<Rightarrow> ('ps, 'mesh, 'node) worker" where
  "log es w = w\<lparr>trace := trace w @ es\<rparr>"

text \<open>
  \<open>exit_event.is_set()\<close>. The event is set by \<open>abort\<close> in the Controller's process and never
  cleared: \<open>aborts k\<close> says whether \<open>abort\<close> has been called between the previous call of
  \<open>is_set\<close> and call \<open>k\<close> of the run.
\<close>

definition is_set ::
  "(nat \<Rightarrow> bool) \<Rightarrow> ('ps, 'mesh, 'node) worker \<Rightarrow> bool \<times> ('ps, 'mesh, 'node) worker" where
  "is_set aborts w =
     (let b = (event_set w \<or> aborts (checks w)) in
      (b, w\<lparr>event_set := b, checks := checks w + 1, trace := trace w @ [IsSet b]\<rparr>))"

subsection \<open>Selecting the targets of a task\<close>

text \<open>
  \<^verbatim>\<open>vectors[i, :, j].reshape(-1, 3)\<close>: \<open>IndexError\<close> outside the array, \<open>ValueError\<close> when
  the row does not split into threes.
\<close>

definition all_mvs :: "array3 \<Rightarrow> nat \<Rightarrow> nat \<Rightarrow> py_error + vec3 list" where
  "all_mvs v i j =
     (if shape0 v \<le> i \<or> shape2 v \<le> j then Inl IndexError
      else if shape1 v mod 3 \<noteq> 0 then Inl ValueError
      else Inr (map (\<lambda>g. (elem v i (3 * g) j, elem v i (3 * g + 1) j, elem v i (3 * g + 2) j))
                    [0..<shape1 v div 3]))"

definition norm3 :: "vec3 \<Rightarrow> real" where
  "norm3 v = (case v of (x, y, z) \<Rightarrow> sqrt (x * x + y * y + z * z))"

text \<open>
  \<^verbatim>\<open>np.where(np.linalg.norm(all_mvs, axis=1) > 0.0001)[0]  # greater than epsilon\<close>
\<close>

definition epsilon :: real where
  "epsilon = 0.0001"

definition selected :: "vec3 list \<Rightarrow> nat list" where
  "selected mvs = filter (\<lambda>g. epsilon < norm3 (mvs ! g)) [0..<length mvs]"

text \<open>Indexing rows with a list of indices: \<open>IndexError\<close> when one is out of range.\<close>

definition index_rows :: "'a list \<Rightarrow> nat list \<Rightarrow> py_error + 'a list" where
  "index_rows xs idx =
     (if list_all (\<lambda>k. k < length xs) idx then Inr (map (\<lambda>k. xs ! k) idx) else Inl IndexError)"

text \<open>The pair \<open>(q_vectors, measurement_vectors)\<close> handed to the solver for task \<open>(i, j)\<close>.\<close>

definition targets ::
  "('ps, 'mesh, 'node) externals \<Rightarrow> ('ps, 'mesh, 'node) args \<Rightarrow> 'ps \<Rightarrow> nat \<Rightarrow> nat
     \<Rightarrow> py_error + (vec3 list \<times> vec3 list)" where
  "targets X a ps i j =
     (case all_mvs (vectors a) i j of
        Inl e \<Rightarrow> Inl e
      | Inr mvs \<Rightarrow>
          if selected mvs = [] then
            (case q_vectors a of
               [] \<Rightarrow> Inl IndexError
             | q0 # _ \<Rightarrow> Inr ([q0], [matmul33_col (transpose44 (pose X ps)) q0]))
          else
            (case index_rows (q_vectors a) (selected mvs) of
               Inl e \<Rightarrow> Inl e
             | Inr qs \<Rightarrow> Inr (qs, map (\<lambda>g. mvs ! g) (selected mvs))))"

subsection \<open>The stages of a task\<close>

text \<open>
  \<^verbatim>\<open>path_lengths[i, :, j] = length\<close>: numpy broadcasts a value of one entry, takes a value
  with one entry per detector as it is, and raises \<open>ValueError\<close> otherwise (\<open>None\<close> here).
\<close>

definition write_cell ::
  "nat \<Rightarrow> (nat \<Rightarrow> nat \<Rightarrow> nat \<Rightarrow> real) \<Rightarrow> nat \<Rightarrow> nat \<Rightarrow> real list
     \<Rightarrow> (nat \<Rightarrow> nat \<Rightarrow> nat \<Rightarrow> real) option" where
  "write_cell n_det buf i j l =
     (if length l = n_det
      then Some (\<lambda>a d b. if a = i \<and> b = j \<and> d < n_det then l ! d else buf a d b)
      else if length l = 1
      then Some (\<lambda>a d b. if a = i \<and> b = j \<and> d < n_det then l ! 0 else buf a d b)
      else None)"

text \<open>
  Lines 304 to 309: the value of \<open>length\<close> and the state after them, or \<open>None\<close> when one of
  them raises (\<open>sample[0]\<close> on an empty list, the path-length routine, the view that was
  never bound, the assignment).
\<close>

definition path_length_stage ::
  "('ps, 'mesh, 'node) externals \<Rightarrow> ('ps, 'mesh, 'node) args \<Rightarrow> ('ps, 'mesh, 'node) worker
     \<Rightarrow> matrix44 \<Rightarrow> nat \<Rightarrow> nat \<Rightarrow> (real list option \<times> ('ps, 'mesh, 'node) worker) option" where
  "path_length_stage X a w pose_matrix i j =
     (if compute_path_length a \<and> beam_in_gauge a then
        (case sample a of
           [] \<Rightarrow> None
         | mesh0 # _ \<Rightarrow>
             (case path_length_calculation X (transformed X mesh0 pose_matrix)
                     (gauge_volume a) (beam_axis a) (diff_axis a) of
                None \<Rightarrow> None
              | Some l \<Rightarrow>
                  (case lengths w of
                     None \<Rightarrow> None
                   | Some buf \<Rightarrow>
                       (case write_cell (shape1 (vectors a) div 3) buf i j l of
                          None \<Rightarrow> None
                        | Some buf' \<Rightarrow>
                            Some (Some l,
                                  w\<lparr>lengths := Some buf',
                                    trace := trace w @ [PathLengthCall mesh0 pose_matrix,
                                                        WriteCell i j l]\<rparr>)))))
      else Some (None, w))"

text \<open>Lines 314 to 317: the value of \<open>collision_mask\<close> and the state after them.\<close>

definition collision_stage ::
  "('ps, 'mesh, 'node) externals \<Rightarrow> ('ps, 'mesh, 'node) args \<Rightarrow> ('ps, 'mesh, 'node) worker
     \<Rightarrow> matrix44 \<Rightarrow> (bool list option \<times> ('ps, 'mesh, 'node) worker) option" where
  "collision_stage X a w pose_matrix =
     (if check_collision a then
        (case manager w of
           None \<Rightarrow> None
         | Some m \<Rightarrow>
             (case model_children X (stack w) of
                None \<Rightarrow> None
              | Some nodes \<Rightarrow>
                  (case update_colliders X m pose_matrix (sample_ids w) nodes (positioner_ids w) of
                     None \<Rightarrow> None
                   | Some m' \<Rightarrow>
                       Some (Some (collide X m'),
                             w\<lparr>manager := Some m',
                               trace := trace w @ [CollisionQuery (map excludes (colliders m'))
                                                     (collide X m')]\<rparr>))))
      else Some (None, w))"

text \<open>
  Lines 322 to 329: the result is built and put on the queue, the Worker sleeps when graphics
  are rendered, and the task is logged as finished.
\<close>

datatype 'w flow = Next 'w | Break 'w | Raised 'w | Stuck 'w

definition publish ::
  "('ps, 'mesh, 'node) externals \<Rightarrow> ('ps, 'mesh, 'node) args \<Rightarrow> string list
     \<Rightarrow> ('ps, 'mesh, 'node) worker \<Rightarrow> nat \<Rightarrow> nat \<Rightarrow> nat
     \<Rightarrow> real list \<times> (real \<times> vec3) \<times> solver_status \<Rightarrow> real list option \<Rightarrow> bool list option
     \<Rightarrow> ('ps, 'mesh, 'node) worker flow" where
  "publish X a names w index i j solution len cmask =
     (case solution of (r, err, status) \<Rightarrow>
        (case toUserFormat X (stack w) r of
           None \<Rightarrow> Raised w
         | Some fmt \<Rightarrow>
             (let res = \<lparr>result_id = label (shape2 (vectors a)) index i j, q = r, error = err,
                         code = status, alignment = j, joint_labels = names, formatted = fmt,
                         path_length = len, collision_mask = cmask\<rparr>
              in case queue_put (results_maxsize a) (queue w) (Result res) of
                   None \<Rightarrow> Stuck w
                 | Some queue' \<Rightarrow>
                     Next (w\<lparr>queue := queue',
                             trace := trace w @ [Put (Result res)]
                                      @ (if render_graphics a then [Slept] else [])
                                      @ [Finished i j]\<rparr>))))"

subsection \<open>One task, the loop and the run\<close>

text \<open>
  The body of the \<open>for\<close> loop for entry \<open>index\<close> of \<open>order\<close>, the task \<open>(i, j)\<close>. \<open>Next\<close> is
  the end of the body, \<open>Break\<close> one of the three \<open>break\<close>s, \<open>Raised\<close> an exception on its way
  to the handler, \<open>Stuck\<close> a \<open>put\<close> that blocks on the full queue. The body is cut at its
  three checkpoints \<^verbatim>\<open>if exit_event.is_set(): break\<close>.
\<close>

definition checkpoint ::
  "(nat \<Rightarrow> bool) \<Rightarrow> ('ps, 'mesh, 'node) worker
     \<Rightarrow> (('ps, 'mesh, 'node) worker \<Rightarrow> ('ps, 'mesh, 'node) worker flow)
     \<Rightarrow> ('ps, 'mesh, 'node) worker flow" where
  "checkpoint aborts w rest =
     (if fst (is_set aborts w) then Break (snd (is_set aborts w)) else rest (snd (is_set aborts w)))"

definition after_path_length ::
  "('ps, 'mesh, 'node) externals \<Rightarrow> (nat \<Rightarrow> bool) \<Rightarrow> ('ps, 'mesh, 'node) args \<Rightarrow> string list
     \<Rightarrow> nat \<Rightarrow> nat \<Rightarrow> nat \<Rightarrow> real list \<times> (real \<times> vec3) \<times> solver_status \<Rightarrow> matrix44
     \<Rightarrow> real list option \<Rightarrow> ('ps, 'mesh, 'node) worker \<Rightarrow> ('ps, 'mesh, 'node) worker flow" where
  "after_path_length X aborts a names index i j solution pose_matrix len w =
     (case collision_stage X a w pose_matrix of
        None \<Rightarrow> Raised w
      | Some (cmask, w') \<Rightarrow>
          checkpoint aborts w' (\<lambda>w''. publish X a names w'' index i j solution len cmask))"

definition after_solve ::
  "('ps, 'mesh, 'node) externals \<Rightarrow> (nat \<Rightarrow> bool) \<Rightarrow> ('ps, 'mesh, 'node) args \<Rightarrow> string list
     \<Rightarrow> nat \<Rightarrow> nat \<Rightarrow> nat \<Rightarrow> real list \<times> (real \<times> vec3) \<times> solver_status
     \<Rightarrow> ('ps, 'mesh, 'node) worker \<Rightarrow> ('ps, 'mesh, 'node) worker flow" where
  "after_solve X aborts a names index i j solution w =
     (case fkine X (stack w) (fst solution) of
        None \<Rightarrow> Raised w
      | Some (t, ps) \<Rightarrow>
          (case path_length_stage X a (w\<lparr>stack := ps\<rparr>) (matmul44 t (tool_link X ps)) i j of
             None \<Rightarrow> Raised (w\<lparr>stack := ps\<rparr>)
           | Some (len, w') \<Rightarrow>
               checkpoint aborts w'
                 (after_path_length X aborts a names index i j solution
                    (matmul44 t (tool_link X ps)) len)))"

definition run_task ::
  "('ps, 'mesh, 'node) externals \<Rightarrow> (nat \<Rightarrow> bool) \<Rightarrow> ('ps, 'mesh, 'node) args \<Rightarrow> string list
     \<Rightarrow> ('ps, 'mesh, 'node) worker \<Rightarrow> nat \<times> nat \<times> nat \<Rightarrow> ('ps, 'mesh, 'node) worker flow" where
  "run_task X aborts a names w task =
     (case task of (index, i, j) \<Rightarrow>
        (case targets X a (stack w) i j of
           Inl e \<Rightarrow> Raised (log [Started i j] w)
         | Inr (qs, mvs) \<Rightarrow>
             if length (points a) \<le> i then Raised (log [Started i j] w)
             else
               (case ikine X (stack w) (points a ! i, mvs) (gauge_volume a, qs) (ikine_kwargs a) of
                  None \<Rightarrow> Raised (log [Started i j, IkineCall i j (points a ! i) mvs qs] w)
                | Some (solution, ps) \<Rightarrow>
                    checkpoint aborts
                      ((log [Started i j, IkineCall i j (points a ! i) mvs qs] w)\<lparr>stack := ps\<rparr>)
                      (after_solve X aborts a names index i j solution))))"

fun run_tasks ::
  "('ps, 'mesh, 'node) externals \<Rightarrow> (nat \<Rightarrow> bool) \<Rightarrow> ('ps, 'mesh, 'node) args \<Rightarrow> string list
     \<Rightarrow> ('ps, 'mesh, 'node) worker \<Rightarrow> (nat \<times> nat \<times> nat) list \<Rightarrow> ('ps, 'mesh, 'node) worker flow"
where
  "run_tasks X aborts a names w [] = Next w"
| "run_tasks X aborts a names w (task # rest) =
     (case run_task X aborts a names w task of
        Next w' \<Rightarrow> run_tasks X aborts a names w' rest
      | Break w' \<Rightarrow> Break w'
      | Raised w' \<Rightarrow> Raised w'
      | Stuck w' \<Rightarrow> Stuck w')"

text \<open>
  How a run ends: the loop ran through \<open>order\<close>, it left by a \<open>break\<close>, the handler put
  \<open>'Error'\<close>, a \<open>put\<close> is blocked on the full queue, or an exception raised before the
  \<open>try\<close> ended the process. \<open>enumerate(order)\<close> pairs each task with its position.
\<close>

datatype 'w ending = Exhausted 'w | Cancelled 'w | Faulted 'w | Blocked 'w | Crashed py_error

fun flow_state :: "'w flow \<Rightarrow> 'w" where
  "flow_state (Next w) = w"
| "flow_state (Break w) = w"
| "flow_state (Raised w) = w"
| "flow_state (Stuck w) = w"

fun ending_state :: "'w ending \<Rightarrow> 'w option" where
  "ending_state (Exhausted w) = Some w"
| "ending_state (Cancelled w) = Some w"
| "ending_state (Faulted w) = Some w"
| "ending_state (Blocked w) = Some w"
| "ending_state (Crashed e) = None"

definition enumerate_order :: "(nat \<times> nat) list \<Rightarrow> (nat \<times> nat \<times> nat) list" where
  "enumerate_order order = zip [0..<length order] order"

definition try_block ::
  "('ps, 'mesh, 'node) externals \<Rightarrow> (nat \<Rightarrow> bool) \<Rightarrow> ('ps, 'mesh, 'node) args \<Rightarrow> string list
     \<Rightarrow> ('ps, 'mesh, 'node) worker \<Rightarrow> (nat \<times> nat) list \<Rightarrow> ('ps, 'mesh, 'node) worker ending" where
  "try_block X aborts a names w order =
     (case run_tasks X aborts a names w (enumerate_order order) of
        Next w' \<Rightarrow> Exhausted (log [SimulationFinished] w')
      | Break w' \<Rightarrow> Cancelled (log [SimulationFinished] w')
      | Stuck w' \<Rightarrow> Blocked w'
      | Raised w' \<Rightarrow>
          (case queue_put (results_maxsize a) (queue w') ErrorString of
             None \<Rightarrow> Blocked (log [ExceptionLogged] w')
           | Some queue' \<Rightarrow>
               Faulted (w'\<lparr>queue := queue',
                           trace := trace w' @ [ExceptionLogged, Put ErrorString]\<rparr>)))"

text \<open>
  \<open>Simulation.execute(args)\<close>, given when the Controller calls \<open>abort\<close>. \<open>initial\<close> is the
  state on entry: the view of the path-length array is bound only when path lengths are
  computed, the manager only when collisions are checked. Before the \<open>try\<close>,
  \<open>args['path_lengths']\<close> raises \<open>KeyError\<close> when the array was never allocated, and
  \<open>populate_collision_manager\<close> can raise.
\<close>

definition initial :: "('ps, 'mesh, 'node) args \<Rightarrow> ('ps, 'mesh, 'node) worker" where
  "initial a =
     \<lparr>stack = positioner a,
      lengths = (if compute_path_length a \<and> beam_in_gauge a then path_lengths a else None),
      manager = None, sample_ids = [], positioner_ids = [], queue = results a,
      event_set = exit_event a, checks = 0, trace = []\<rparr>"

definition execute ::
  "('ps, 'mesh, 'node) externals \<Rightarrow> (nat \<Rightarrow> bool) \<Rightarrow> ('ps, 'mesh, 'node) args
     \<Rightarrow> ('ps, 'mesh, 'node) worker ending" where
  "execute X aborts a =
     (let names = link_names X (positioner a);
          order = task_order (align_first_order a) (shape0 (vectors a)) (shape2 (vectors a))
      in
      if compute_path_length a \<and> beam_in_gauge a \<and> path_lengths a = None then Crashed KeyError
      else if check_collision a then
        (case populate_collision_manager X (CollisionManager (scene_size a)) (sample a)
                identity44 (instrument_scene a) of
           Inl e \<Rightarrow> Crashed e
         | Inr (m, s_ids, p_ids) \<Rightarrow>
             try_block X aborts a names
               ((initial a)\<lparr>manager := Some m, sample_ids := s_ids, positioner_ids := p_ids\<rparr>)
               order)
      else try_block X aborts a names (initial a) order)"

section \<open>Describing a run\<close>

text \<open>
  Vocabulary for statements about traces and queues: the events that begin a task and that
  publish a result, the label and the alignment of an enumerated task, what the trace looks
  like with respect to observed cancellation, and the link between a finished task and the
  write to its path-length cell.
\<close>

fun is_started :: "'mesh event \<Rightarrow> bool" where
  "is_started (Started i j) = True"
| "is_started e = False"

fun is_put_result :: "'mesh event \<Rightarrow> bool" where
  "is_put_result (Put (Result r)) = True"
| "is_put_result e = False"

definition task_label :: "('ps, 'mesh, 'node) args \<Rightarrow> nat \<times> nat \<times> nat \<Rightarrow> string" where
  "task_label a task = (case task of (index, i, j) \<Rightarrow> label (shape2 (vectors a)) index i j)"

definition task_alignment :: "nat \<times> nat \<times> nat \<Rightarrow> nat" where
  "task_alignment task = (case task of (index, i, j) \<Rightarrow> j)"

definition cancel_post :: "('ps, 'mesh, 'node) worker flow \<Rightarrow> bool" where
  "cancel_post F = (case F of
      Break w' \<Rightarrow> (\<exists>pre. trace w' = pre @ [IsSet True] \<and> IsSet True \<notin> set pre)
    | Next w' \<Rightarrow> IsSet True \<notin> set (trace w')
    | Raised w' \<Rightarrow> IsSet True \<notin> set (trace w')
    | Stuck w' \<Rightarrow> IsSet True \<notin> set (trace w'))"

definition written :: "('ps, 'mesh, 'node) args \<Rightarrow> 'mesh event list \<Rightarrow> bool" where
  "written a tr = (\<forall>i j. Finished i j \<in> set tr \<longrightarrow> compute_path_length a \<and> beam_in_gauge a
                      \<longrightarrow> (\<exists>l. WriteCell i j l \<in> set tr))"

definition event_ok ::
  "('ps, 'mesh, 'node) externals \<Rightarrow> ('ps, 'mesh, 'node) args \<Rightarrow> (nat \<Rightarrow> bool) list \<Rightarrow> 'mesh event
     \<Rightarrow> bool" where
  "event_ok X a ex0 e =
     (case e of
        IkineCall i j p mvs qs \<Rightarrow>
          i < length (points a) \<and> p = points a ! i \<and> (\<exists>ps. targets X a ps i j = Inr (qs, mvs))
      | PathLengthCall m t \<Rightarrow>
          compute_path_length a \<and> beam_in_gauge a \<and> (\<exists>ms. sample a = m # ms)
      | WriteCell i j l \<Rightarrow> compute_path_length a \<and> beam_in_gauge a
      | CollisionQuery ex cm \<Rightarrow> check_collision a \<and> ex = ex0 \<and> length cm = length ex0
      | Put msg \<Rightarrow>
          (case msg of
             Result r \<Rightarrow>
               (path_length r = None \<longleftrightarrow> \<not> (compute_path_length a \<and> beam_in_gauge a))
               \<and> (case collision_mask r of
                     None \<Rightarrow> \<not> check_collision a
                   | Some cm \<Rightarrow> check_collision a \<and> length cm = length ex0)
           | ErrorString \<Rightarrow> True
           | NoneSentinel \<Rightarrow> False)
      | _ \<Rightarrow> True)"

definition safe ::
  "('ps, 'mesh, 'node) externals \<Rightarrow> ('ps, 'mesh, 'node) args \<Rightarrow> (nat \<Rightarrow> bool) list
     \<Rightarrow> ('ps, 'mesh, 'node) worker \<Rightarrow> bool" where
  "safe X a ex0 w =
     ((\<forall>e \<in> set (trace w). event_ok X a ex0 e)
      \<and> (\<forall>m. manager w = Some m \<longrightarrow> map excludes (colliders m) = ex0))"

definition tables :: "('ps, 'mesh, 'node) worker \<Rightarrow> (nat \<Rightarrow> bool) list" where
  "tables w = (case manager w of None \<Rightarrow> [] | Some m \<Rightarrow> map excludes (colliders m))"

section \<open>A small configuration\<close>

text \<open>
  Concrete collaborators and inputs, used to run the definitions. The positioning stack's
  state counts the calls of \<open>fkine\<close>; \<open>ikine\<close> raises once that count is \<open>fail_at\<close>. Meshes
  and nodes are numbers. The scene has one positioner link (node 5) and one further node;
  the broad phase reports the sample collider 0 and the positioner link, collider 2, as
  overlapping, and nothing else. There are three measurement points, the second disabled,
  one detector and two alignments; the vector of the first point is a unit vector, the
  others are zero.
\<close>

definition demo_externals :: "nat \<Rightarrow> (nat, nat, nat) externals" where
  "demo_externals fail_at =
     \<lparr>ikine = (\<lambda>ps target constraint kw.
                 if ps = fail_at then None else Some (([0], (0, (0, 0, 0)), Converged), ps)),
      fkine = (\<lambda>ps r. Some (identity44, ps + 1)),
      tool_link = (\<lambda>ps. identity44),
      pose = (\<lambda>ps. identity44),
      toUserFormat = (\<lambda>ps r. Some r),
      link_names = (\<lambda>ps. [''X'']),
      model_children = (\<lambda>ps. Some [5]),
      node_transform = (\<lambda>n. identity44),
      transformed = (\<lambda>mesh t. mesh),
      path_length_calculation = (\<lambda>mesh g b d. Some [real mesh]),
      createInstrumentNode = (\<lambda>instr. ([5, 6], [(''positioner'', 1), (''detector'', 2)])),
      Positioner_value = ''positioner'',
      boxes_intersect = (\<lambda>boxes x y. (x = 0 \<and> y = 2) \<or> (x = 2 \<and> y = 0))\<rparr>"

definition demo_settings :: settings where
  "demo_settings = \<lparr>Local_Max_Eval = 1000, Global_Max_Eval = 100, Position_Stop_Val = 0.01,
                     Angular_Stop_Val = 1, Align_First = True\<rparr>"

definition demo_instrument :: "nat instrument" where
  "demo_instrument = \<lparr>positioning_stack = 0, jaws_beam_direction = (1, 0, 0),
                       instrument_gauge_volume = (0, 0, 0), instrument_q_vectors = [(0, 1, 0)],
                       detectors = [(''North'', (0, 1, 0))], beam_in_gauge_volume = True\<rparr>"

definition demo_sample :: "(string \<times> nat) list" where
  "demo_sample = [(''a'', 1), (''b'', 2)]"

definition demo_points :: "(vec3 \<times> bool) list" where
  "demo_points = [((0, 0, 0), True), ((1, 0, 0), False), ((2, 0, 0), True)]"

definition demo_vectors :: array3 where
  "demo_vectors = \<lparr>shape0 = 3, shape1 = 3, shape2 = 2,
                    elem = (\<lambda>i m k. if i = 0 \<and> m = 0 then 1 else 0)\<rparr>"

definition never :: "nat \<Rightarrow> bool" where
  "never k = False"

section \<open>The shape of a task\<close>

text \<open>The ways each piece of the loop body can end, as elimination rules.\<close>

lemma is_set_simps [simp]:
  "fst (is_set aborts w) = (event_set w \<or> aborts (checks w))"
  "trace (snd (is_set aborts w)) = trace w @ [IsSet (event_set w \<or> aborts (checks w))]"
  "queue (snd (is_set aborts w)) = queue w"
  "stack (snd (is_set aborts w)) = stack w"
  "lengths (snd (is_set aborts w)) = lengths w"
  "manager (snd (is_set aborts w)) = manager w"
  "sample_ids (snd (is_set aborts w)) = sample_ids w"
  "positioner_ids (snd (is_set aborts w)) = positioner_ids w"
  "event_set (snd (is_set aborts w)) = (event_set w \<or> aborts (checks w))"
  "checks (snd (is_set aborts w)) = checks w + 1"
  by (simp_all add: is_set_def Let_def)

lemma checkpoint_cases:
  assumes "checkpoint aborts w rest = F"
  obtains (stop) "event_set w \<or> aborts (checks w)" "F = Break (snd (is_set aborts w))"
        | (continue) "\<not> event_set w" "\<not> aborts (checks w)" "rest (snd (is_set aborts w)) = F"
  using assms by (auto simp: checkpoint_def split: if_splits)

lemma path_length_stage_cases:
  assumes "path_length_stage X a w p i j = r"
  obtains (raised) "r = None" "compute_path_length a" "beam_in_gauge a"
        | (skipped) "r = Some (None, w)" "\<not> (compute_path_length a \<and> beam_in_gauge a)"
        | (written) m ms l buf buf' where "compute_path_length a" "beam_in_gauge a" "sample a = m # ms"
            "path_length_calculation X (transformed X m p) (gauge_volume a) (beam_axis a) (diff_axis a) = Some l"
            "lengths w = Some buf" "write_cell (shape1 (vectors a) div 3) buf i j l = Some buf'"
            "r = Some (Some l, w\<lparr>lengths := Some buf', trace := trace w @ [PathLengthCall m p, WriteCell i j l]\<rparr>)"
  using assms by (auto simp: path_length_stage_def split: if_splits list.splits option.splits)

lemma collision_stage_cases:
  assumes "collision_stage X a w p = r"
  obtains (raised) "r = None" "check_collision a"
        | (skipped) "r = Some (None, w)" "\<not> check_collision a"
        | (queried) m nodes m' where "check_collision a" "manager w = Some m"
            "model_children X (stack w) = Some nodes"
            "update_colliders X m p (sample_ids w) nodes (positioner_ids w) = Some m'"
            "r = Some (Some (collide X m'), w\<lparr>manager := Some m',
                   trace := trace w @ [CollisionQuery (map excludes (colliders m')) (collide X m')]\<rparr>)"
  using assms by (auto simp: collision_stage_def split: if_splits list.splits option.splits)

lemma publish_cases:
  assumes "publish X a names w index i j sol len cm = F"
  obtains (raised) "F = Raised w"
        | (stuck) "F = Stuck w"
        | (put) fmt where "toUserFormat X (stack w) (fst sol) = Some fmt"
            "F = Next (w\<lparr>queue := queue w @ [Result \<lparr>result_id = label (shape2 (vectors a)) index i j,
                       q = fst sol, error = fst (snd sol), code = snd (snd sol), alignment = j,
                       joint_labels = names, formatted = fmt, path_length = len, collision_mask = cm\<rparr>],
                 trace := trace w @ [Put (Result \<lparr>result_id = label (shape2 (vectors a)) index i j,
                       q = fst sol, error = fst (snd sol), code = snd (snd sol), alignment = j,
                       joint_labels = names, formatted = fmt, path_length = len, collision_mask = cm\<rparr>)]
                   @ (if render_graphics a then [Slept] else []) @ [Finished i j]\<rparr>)"
  using assms
  by (auto simp: publish_def queue_put_def Let_def split: prod.splits option.splits if_splits)

lemma after_path_length_cases:
  assumes "after_path_length X aborts a names index i j sol p len w = F"
  obtains (raised) "F = Raised w" "collision_stage X a w p = None"
        | (checked) cm w' where "collision_stage X a w p = Some (cm, w')"
            "checkpoint aborts w' (\<lambda>w''. publish X a names w'' index i j sol len cm) = F"
  using assms by (auto simp: after_path_length_def split: option.splits)

lemma after_solve_cases:
  assumes "after_solve X aborts a names index i j sol w = F"
  obtains (raised_fkine) "F = Raised w"
        | (raised_path) t ps where "fkine X (stack w) (fst sol) = Some (t, ps)" "F = Raised (w\<lparr>stack := ps\<rparr>)"
            "path_length_stage X a (w\<lparr>stack := ps\<rparr>) (matmul44 t (tool_link X ps)) i j = None"
        | (measured) t ps len w' where "fkine X (stack w) (fst sol) = Some (t, ps)"
            "path_length_stage X a (w\<lparr>stack := ps\<rparr>) (matmul44 t (tool_link X ps)) i j = Some (len, w')"
            "checkpoint aborts w' (after_path_length X aborts a names index i j sol (matmul44 t (tool_link X ps)) len) = F"
  using assms by (auto simp: after_solve_def split: option.splits)

lemma run_task_cases:
  assumes "run_task X aborts a names w (index, i, j) = F"
  obtains (raised_targets) "F = Raised (log [Started i j] w)"
        | (raised_ikine) qs mvs where "targets X a (stack w) i j = Inr (qs, mvs)" "i < length (points a)"
            "F = Raised (log [Started i j, IkineCall i j (points a ! i) mvs qs] w)"
        | (solved) qs mvs sol ps where "targets X a (stack w) i j = Inr (qs, mvs)" "i < length (points a)"
            "ikine X (stack w) (points a ! i, mvs) (gauge_volume a, qs) (ikine_kwargs a) = Some (sol, ps)"
            "checkpoint aborts ((log [Started i j, IkineCall i j (points a ! i) mvs qs] w)\<lparr>stack := ps\<rparr>)
               (after_solve X aborts a names index i j sol) = F"
  using assms by (auto simp: run_task_def split: sum.splits option.splits if_splits)

lemmas task_elims = run_task_cases checkpoint_cases after_solve_cases after_path_length_cases
  publish_cases path_length_stage_cases collision_stage_cases

section \<open>Invariants of the task loop\<close>

lemma run_task_queue:
  assumes "run_task X aborts a names w task = F"
  shows "case F of
      Next w' \<Rightarrow> (\<exists>r. queue w' = queue w @ [Result r] \<and> alignment r = task_alignment task
                      \<and> result_id r = task_label a task)
    | Break w' \<Rightarrow> queue w' = queue w
    | Raised w' \<Rightarrow> queue w' = queue w
    | Stuck w' \<Rightarrow> queue w' = queue w"
proof -
  obtain index i j where t: "task = (index, i, j)" by (cases task)
  show ?thesis
    using assms unfolding t
    by (elim task_elims) (auto simp: log_def task_label_def task_alignment_def)
qed

lemma run_tasks_queue:
  "run_tasks X aborts a names w ts = F \<Longrightarrow>
     \<exists>rs. queue (flow_state F) = queue w @ map Result rs
        \<and> map alignment rs = map task_alignment (take (length rs) ts)
        \<and> map result_id rs = map (task_label a) (take (length rs) ts)
        \<and> length rs \<le> length ts
        \<and> ((\<exists>w'. F = Next w') \<longleftrightarrow> length rs = length ts)"
proof (induction ts arbitrary: w F)
  case Nil
  then show ?case by auto
next
  case (Cons t ts)
  show ?case
  proof (cases "run_task X aborts a names w t")
    case (Next w1)
    obtain r where r: "queue w1 = queue w @ [Result r]" "alignment r = task_alignment t"
        "result_id r = task_label a t"
      using run_task_queue[OF Next] by auto
    have "run_tasks X aborts a names w1 ts = F"
      using Cons.prems Next by simp
    from Cons.IH[OF this] obtain rs where rs:
        "queue (flow_state F) = queue w1 @ map Result rs"
        "map alignment rs = map task_alignment (take (length rs) ts)"
        "map result_id rs = map (task_label a) (take (length rs) ts)"
        "length rs \<le> length ts"
        "(\<exists>w'. F = Next w') \<longleftrightarrow> length rs = length ts"
      by blast
    show ?thesis
      by (rule exI[of _ "r # rs"]) (use r rs in simp)
  next
    case (Break w1)
    have "queue w1 = queue w"
      using run_task_queue[OF Break] by simp
    moreover have "F = Break w1"
      using Cons.prems Break by simp
    ultimately show ?thesis by (intro exI[of _ "[]"]) simp
  next
    case (Raised w1)
    have "queue w1 = queue w"
      using run_task_queue[OF Raised] by simp
    moreover have "F = Raised w1"
      using Cons.prems Raised by simp
    ultimately show ?thesis by (intro exI[of _ "[]"]) simp
  next
    case (Stuck w1)
    have "queue w1 = queue w"
      using run_task_queue[OF Stuck] by simp
    moreover have "F = Stuck w1"
      using Cons.prems Stuck by simp
    ultimately show ?thesis by (intro exI[of _ "[]"]) simp
  qed
qed

lemma run_task_cancel:
  assumes "run_task X aborts a names w task = F" "IsSet True \<notin> set (trace w)"
  shows "cancel_post F"
proof -
  obtain index i j where t: "task = (index, i, j)" by (cases task)
  show ?thesis
    using assms unfolding t
    by (elim task_elims) (auto simp: log_def cancel_post_def)
qed

lemma run_tasks_cancel:
  "run_tasks X aborts a names w ts = F \<Longrightarrow> IsSet True \<notin> set (trace w) \<Longrightarrow> cancel_post F"
proof (induction ts arbitrary: w)
  case Nil
  then show ?case by (auto simp: cancel_post_def)
next
  case (Cons t ts)
  show ?case
  proof (cases "run_task X aborts a names w t")
    case (Next w1)
    then have "IsSet True \<notin> set (trace w1)"
      using run_task_cancel[OF Next Cons.prems(2)] by (simp add: cancel_post_def)
    then show ?thesis using Cons Next by simp
  qed (use Cons.prems run_task_cancel[of X aborts a names w t] in auto)
qed

lemma run_task_written:
  assumes "run_task X aborts a names w task = F" "written a (trace w)"
  shows "written a (trace (flow_state F))"
proof -
  obtain index i j where t: "task = (index, i, j)" by (cases task)
  show ?thesis
    using assms unfolding t
    by (elim task_elims) (auto simp: log_def written_def)
qed

lemma run_tasks_written:
  "run_tasks X aborts a names w ts = F \<Longrightarrow> written a (trace w) \<Longrightarrow> written a (trace (flow_state F))"
proof (induction ts arbitrary: w)
  case Nil
  then show ?case by auto
next
  case (Cons t ts)
  show ?case
  proof (cases "run_task X aborts a names w t")
    case (Next w1)
    then show ?thesis using Cons run_task_written[OF Next] by simp
  qed (use Cons.prems run_task_written[of X aborts a names w t] in auto)
qed

lemma transform_colliders_keeps:
  "transform_colliders ts cs = Some cs' \<Longrightarrow>
     map excludes cs' = map excludes cs \<and> map cid cs' = map cid cs"
proof (induction ts cs rule: transform_colliders.induct)
  case (1 cs)
  then show ?case by simp
next
  case (2 i t rest cs)
  then have inb: "i < length cs" and
    rec: "transform_colliders rest (cs[i := (cs ! i)\<lparr>transform := Some t\<rparr>]) = Some cs'"
    by (simp_all split: if_splits)
  have "map excludes (cs[i := (cs ! i)\<lparr>transform := Some t\<rparr>]) = map excludes cs"
    and "map cid (cs[i := (cs ! i)\<lparr>transform := Some t\<rparr>]) = map cid cs"
    using inb by (simp_all add: map_update list_update_same_conv)
  then show ?case using 2(1)[OF inb rec] by simp
qed

lemma update_colliders_keeps:
  assumes "update_colliders X m p s_ids nodes p_ids = Some m'"
  shows "map excludes (colliders m') = map excludes (colliders m)"
    and "map cid (colliders m') = map cid (colliders m)"
    and "length (colliders m') = length (colliders m)"
proof -
  show e: "map excludes (colliders m') = map excludes (colliders m)"
    and "map cid (colliders m') = map cid (colliders m)"
    using assms
    by (auto simp: update_colliders_def createAABBSets_def split: option.splits
        dest!: transform_colliders_keeps)
  show "length (colliders m') = length (colliders m)"
    using arg_cong[OF e, of length] by simp
qed

lemma event_ok_simps [simp]:
  "event_ok X a ex0 (Started i j)"
  "event_ok X a ex0 (IsSet b)"
  "event_ok X a ex0 Slept"
  "event_ok X a ex0 (Finished i j)"
  "event_ok X a ex0 SimulationFinished"
  "event_ok X a ex0 ExceptionLogged"
  "event_ok X a ex0 (Put ErrorString)"
  "event_ok X a ex0 (IkineCall i j p mvs qs) =
     (i < length (points a) \<and> p = points a ! i \<and> (\<exists>ps. targets X a ps i j = Inr (qs, mvs)))"
  "event_ok X a ex0 (PathLengthCall m t) =
     (compute_path_length a \<and> beam_in_gauge a \<and> (\<exists>ms. sample a = m # ms))"
  "event_ok X a ex0 (WriteCell i j l) = (compute_path_length a \<and> beam_in_gauge a)"
  "event_ok X a ex0 (CollisionQuery ex cm) =
     (check_collision a \<and> ex = ex0 \<and> length cm = length ex0)"
  "event_ok X a ex0 (Put (Result r)) =
     ((path_length r = None \<longleftrightarrow> \<not> (compute_path_length a \<and> beam_in_gauge a))
      \<and> (case collision_mask r of
            None \<Rightarrow> \<not> check_collision a
          | Some cm \<Rightarrow> check_collision a \<and> length cm = length ex0))"
  by (simp_all add: event_ok_def)

lemma length_collide: "length (collide X m) = length (colliders m)"
  by (simp add: collide_def)

lemma run_task_safe:
  assumes "run_task X aborts a names w task = F" "safe X a ex0 w"
  shows "safe X a ex0 (flow_state F)"
proof -
  obtain index i j where t: "task = (index, i, j)" by (cases task)
  show ?thesis
    using assms unfolding t
    by (elim task_elims)
      (auto simp: log_def safe_def length_collide update_colliders_keeps)
qed

lemma run_tasks_safe:
  "run_tasks X aborts a names w ts = F \<Longrightarrow> safe X a ex0 w \<Longrightarrow> safe X a ex0 (flow_state F)"
proof (induction ts arbitrary: w)
  case Nil
  then show ?case by auto
next
  case (Cons t ts)
  show ?case
  proof (cases "run_task X aborts a names w t")
    case (Next w1)
    then show ?thesis using Cons run_task_safe[OF Next] by simp
  qed (use Cons.prems run_task_safe[of X aborts a names w t] in auto)
qed

lemma try_block_cases:
  assumes "try_block X aborts a names w order = E"
  obtains (exhausted) w' where "run_tasks X aborts a names w (enumerate_order order) = Next w'"
            "E = Exhausted (w'\<lparr>trace := trace w' @ [SimulationFinished]\<rparr>)"
        | (cancelled) w' where "run_tasks X aborts a names w (enumerate_order order) = Break w'"
            "E = Cancelled (w'\<lparr>trace := trace w' @ [SimulationFinished]\<rparr>)"
        | (stuck) w' where "run_tasks X aborts a names w (enumerate_order order) = Stuck w'"
            "E = Blocked w'"
        | (faulted) w' where "run_tasks X aborts a names w (enumerate_order order) = Raised w'"
            "E = Faulted (w'\<lparr>queue := queue w' @ [ErrorString],
                             trace := trace w' @ [ExceptionLogged, Put ErrorString]\<rparr>)"
        | (fault_stuck) w' where "run_tasks X aborts a names w (enumerate_order order) = Raised w'"
            "E = Blocked (w'\<lparr>trace := trace w' @ [ExceptionLogged]\<rparr>)"
  using assms
  by (auto simp: try_block_def log_def queue_put_def split: flow.splits option.splits if_splits)

lemma execute_cases:
  assumes "execute X aborts a = E"
  obtains (crashed) e where "E = Crashed e"
        | (plain) "\<not> check_collision a"
            "E = try_block X aborts a (link_names X (positioner a)) (initial a)
                   (task_order (align_first_order a) (shape0 (vectors a)) (shape2 (vectors a)))"
        | (populated) m s_ids p_ids where "check_collision a"
            "populate_collision_manager X (CollisionManager (scene_size a)) (sample a) identity44
               (instrument_scene a) = Inr (m, s_ids, p_ids)"
            "E = try_block X aborts a (link_names X (positioner a))
                   ((initial a)\<lparr>manager := Some m, sample_ids := s_ids, positioner_ids := p_ids\<rparr>)
                   (task_order (align_first_order a) (shape0 (vectors a)) (shape2 (vectors a)))"
  using assms
  by (auto simp: execute_def Let_def split: if_splits sum.splits)

lemma execute_start:
  assumes "execute X aborts a = E" "ending_state E = Some w"
  obtains w0 where
    "E = try_block X aborts a (link_names X (positioner a)) w0
           (task_order (align_first_order a) (shape0 (vectors a)) (shape2 (vectors a)))"
    "trace w0 = []" "queue w0 = results a" "event_set w0 = exit_event a"
    "if check_collision a
     then \<exists>m. manager w0 = Some m \<and> populate_collision_manager X (CollisionManager (scene_size a))
                (sample a) identity44 (instrument_scene a)
              = Inr (m, sample_ids w0, positioner_ids w0)
     else manager w0 = None"
  using assms
proof (cases rule: execute_cases)
  case (crashed e)
  then show ?thesis using assms(2) by simp
next
  case plain
  show ?thesis
    by (rule that[of "initial a"]) (use plain in \<open>simp_all add: initial_def\<close>)
next
  case (populated m s_ids p_ids)
  show ?thesis
    by (rule that[of "(initial a)\<lparr>manager := Some m, sample_ids := s_ids, positioner_ids := p_ids\<rparr>"])
      (use populated in \<open>simp_all add: initial_def\<close>)
qed

lemma try_block_ending:
  assumes "try_block X aborts a names w0 order = E" "ending_state E = Some w"
  shows "case run_tasks X aborts a names w0 (enumerate_order order) of
       Next w' \<Rightarrow> E = Exhausted w \<and> queue w = queue w' \<and> trace w = trace w' @ [SimulationFinished]
                    \<and> manager w = manager w'
     | Break w' \<Rightarrow> E = Cancelled w \<and> queue w = queue w' \<and> trace w = trace w' @ [SimulationFinished]
                    \<and> manager w = manager w'
     | Stuck w' \<Rightarrow> E = Blocked w \<and> w = w'
     | Raised w' \<Rightarrow>
         ((E = Faulted w \<and> queue w = queue w' @ [ErrorString]
            \<and> trace w = trace w' @ [ExceptionLogged, Put ErrorString])
         \<or> (E = Blocked w \<and> queue w = queue w' \<and> trace w = trace w' @ [ExceptionLogged]))
         \<and> manager w = manager w'"
  using assms(1)
proof (cases rule: try_block_cases)
  case (exhausted w')
  then show ?thesis using assms(2) by auto
next
  case (cancelled w')
  then show ?thesis using assms(2) by auto
next
  case (stuck w')
  then show ?thesis using assms(2) by auto
next
  case (faulted w')
  then show ?thesis using assms(2) by auto
next
  case (fault_stuck w')
  then show ?thesis using assms(2) by auto
qed

lemma execute_invariants:
  assumes "execute X aborts a = E" "ending_state E = Some w"
  obtains w0 where
    "trace w0 = []" "queue w0 = results a" "event_set w0 = exit_event a"
    "if check_collision a
     then \<exists>m. manager w0 = Some m \<and> populate_collision_manager X (CollisionManager (scene_size a))
                (sample a) identity44 (instrument_scene a)
              = Inr (m, sample_ids w0, positioner_ids w0)
     else manager w0 = None"
    "safe X a (tables w0) w" "written a (trace w)"
    "case run_tasks X aborts a (link_names X (positioner a)) w0
       (enumerate_order (task_order (align_first_order a) (shape0 (vectors a)) (shape2 (vectors a)))) of
       Next w' \<Rightarrow> E = Exhausted w \<and> queue w = queue w' \<and> trace w = trace w' @ [SimulationFinished]
                    \<and> manager w = manager w'
     | Break w' \<Rightarrow> E = Cancelled w \<and> queue w = queue w' \<and> trace w = trace w' @ [SimulationFinished]
                    \<and> manager w = manager w'
     | Stuck w' \<Rightarrow> E = Blocked w \<and> w = w'
     | Raised w' \<Rightarrow>
         ((E = Faulted w \<and> queue w = queue w' @ [ErrorString]
            \<and> trace w = trace w' @ [ExceptionLogged, Put ErrorString])
         \<or> (E = Blocked w \<and> queue w = queue w' \<and> trace w = trace w' @ [ExceptionLogged]))
         \<and> manager w = manager w'"
proof -
  from assms obtain w0 where w0:
      "E = try_block X aborts a (link_names X (positioner a)) w0
             (task_order (align_first_order a) (shape0 (vectors a)) (shape2 (vectors a)))"
      "trace w0 = []" "queue w0 = results a" "event_set w0 = exit_event a"
      "if check_collision a
       then \<exists>m. manager w0 = Some m \<and> populate_collision_manager X (CollisionManager (scene_size a))
                  (sample a) identity44 (instrument_scene a)
                = Inr (m, sample_ids w0, positioner_ids w0)
       else manager w0 = None"
    by (rule execute_start)
  let ?F = "run_tasks X aborts a (link_names X (positioner a)) w0
       (enumerate_order (task_order (align_first_order a) (shape0 (vectors a)) (shape2 (vectors a))))"
  have s0: "safe X a (tables w0) w0"
    using w0(2) by (auto simp: safe_def tables_def)
  have wr0: "written a (trace w0)"
    using w0(2) by (simp add: written_def)
  have s: "safe X a (tables w0) (flow_state ?F)"
    using run_tasks_safe[OF refl s0] .
  have wr: "written a (trace (flow_state ?F))"
    using run_tasks_written[OF refl wr0] .
  note post = try_block_ending[OF w0(1)[symmetric] assms(2)]
  have sw: "safe X a (tables w0) w"
    using s post by (cases ?F) (auto simp: safe_def)
  have ww: "written a (trace w)"
    using wr post by (cases ?F) (auto simp: written_def)
  show ?thesis
    using that[OF w0(2-5) sw ww post] .
qed

section \<open>Task order\<close>

lemma upt_0_2: "[0..<2] = [0, Suc 0]"
  by code_simp

lemma length_concat_uniform:
  "(\<And>x. length (f x) = k) \<Longrightarrow> length (concat (map f xs)) = length xs * k"
  by (induction xs) simp_all

lemma length_task_order: "length (task_order b n k) = n * k"
  by (simp add: task_order_def length_concat_uniform mult.commute)

lemma nth_concat_uniform:
  assumes len: "\<And>x. length (f x) = k" and i: "i < n" and j: "j < k"
  shows "concat (map f [0..<n]) ! (i * k + j) = f i ! j"
  using i
proof (induction n)
  case 0
  then show ?case by simp
next
  case (Suc n)
  have total: "length (concat (map f [0..<n])) = n * k"
    using len by (simp add: length_concat_uniform)
  show ?case
  proof (cases "i < n")
    case True
    then have "Suc i * k \<le> n * k"
      by (intro mult_le_mono1) simp
    then have "i * k + j < n * k"
      using j by simp
    then show ?thesis
      using Suc.IH True total by (simp add: nth_append)
  next
    case False
    then have "i = n"
      using Suc.prems by simp
    then show ?thesis
      using total by (simp add: nth_append)
  qed
qed

text \<open>
  C2, as the claim words it: with \<open>align_first_order\<close> set, two points and two alignments
  would be enumerated as \<open>[(0,0), (1,0), (0,1), (1,1)]\<close>. The comprehension of the source
  has the point index in its outer loop, so it gives another list.
\<close>

theorem task_order_claimed_example_fails:
  "task_order True 2 2 \<noteq> [(0, 0), (1, 0), (0, 1), (1, 1)]"
  by (simp add: task_order_def upt_0_2)

text \<open>
  C2, amended: with \<open>align_first_order\<close> set the tasks are enumerated point-major, all
  alignments of point 0, then those of point 1, and so on, so that task \<open>(i, j)\<close> stands at
  position \<open>i * K + j\<close>; two points and two alignments give \<open>[(0,0), (0,1), (1,0), (1,1)]\<close>.
  Without the flag the enumeration is alignment-major, task \<open>(i, j)\<close> stands at position
  \<open>j * N + i\<close>, and the example gives \<open>[(0,0), (1,0), (0,1), (1,1)]\<close>. Either way there are
  \<open>N * K\<close> tasks.
\<close>

theorem task_order_point_major_when_align_first:
  "length (task_order b n k) = n * k
   \<and> (\<forall>i j. i < n \<and> j < k \<longrightarrow>
          task_order True n k ! (i * k + j) = (i, j) \<and> task_order False n k ! (j * n + i) = (i, j))
   \<and> task_order True 2 2 = [(0, 0), (0, 1), (1, 0), (1, 1)]
   \<and> task_order False 2 2 = [(0, 0), (1, 0), (0, 1), (1, 1)]"
proof -
  have major: "task_order True n k ! (i * k + j) = (i, j)" if "i < n" "j < k" for i j
    using nth_concat_uniform[of "\<lambda>i. map (\<lambda>j. (i, j)) [0..<k]" k i n j] that
    by (simp add: task_order_def)
  have minor: "task_order False n k ! (j * n + i) = (i, j)" if "i < n" "j < k" for i j
    using nth_concat_uniform[of "\<lambda>j. map (\<lambda>i. (i, j)) [0..<n]" n j k i] that
    by (simp add: task_order_def)
  have "task_order True 2 2 = [(0, 0), (0, 1), (1, 0), (1, 1)]"
    and "task_order False 2 2 = [(0, 0), (1, 0), (0, 1), (1, 1)]"
    by (simp_all add: task_order_def upt_0_2)
  then show ?thesis
    using major minor by (simp add: length_task_order)
qed

theorem task_order_point_major_witness:
  "(1::nat) < 2 \<and> (0::nat) < 2
   \<and> task_order True 2 2 ! (1 * 2 + 0) = (1, 0) \<and> task_order False 2 2 ! (0 * 2 + 1) = (1, 0)
   \<and> length (task_order True 2 2) = 4"
proof -
  note all = task_order_point_major_when_align_first[of True 2 2]
  have "task_order True 2 2 ! (1 * 2 + 0) = (1, 0) \<and> task_order False 2 2 ! (0 * 2 + 1) = (1, 0)"
    using all[THEN conjunct2, THEN conjunct1, rule_format, of 1 0] by simp
  moreover have "length (task_order True 2 2) = 2 * 2"
    using all[THEN conjunct1] .
  ultimately show ?thesis by simp
qed

section \<open>Construction\<close>

text \<open>
  C6: when the first axis of \<open>vectors\<close> does not have one row per measurement point, the
  construction of the \<open>Simulation\<close> raises at once, from the boolean-mask indexing of
  \<open>vectors\<close> (the exception is numpy's \<open>IndexError\<close>; the spec files it under ConfigError).
  No \<open>Simulation\<close> object results, so there is nothing \<open>start\<close> could spawn a Worker for.
\<close>

theorem init_rejects_point_vector_mismatch:
  assumes "length pts \<noteq> shape0 vecs"
  shows "Simulation_init S X instr smp pts vecs algn = Inl IndexError
         \<and> (\<forall>sim. Simulation_init S X instr smp pts vecs algn \<noteq> Inr sim)"
  using assms by (simp add: Simulation_init_def mask_rows_def)

section \<open>Path lengths\<close>

text \<open>
  C4: in every run, a task \<open>(i, j)\<close> that was completed (its result was put on the queue and
  the task logged as finished) has had cell \<open>[i, :, j]\<close> of the path-length array assigned
  if and only if \<open>compute_path_length\<close> and the beam-in-gauge flag are both true; and the
  \<open>path_length\<close> field of a published result is \<open>None\<close> exactly when they are not both true.
\<close>

theorem path_length_cell_written_iff_requested:
  fixes X :: "('a, 'b, 'c) externals"
  assumes "execute X aborts a = E" and "ending_state E = Some w"
  shows "(\<forall>i j. Finished i j \<in> set (trace w) \<longrightarrow>
            ((\<exists>l. WriteCell i j l \<in> set (trace w)) \<longleftrightarrow> compute_path_length a \<and> beam_in_gauge a))
       \<and> (\<forall>r. Put (Result r) \<in> set (trace w) \<longrightarrow>
            (path_length r = None \<longleftrightarrow> \<not> (compute_path_length a \<and> beam_in_gauge a)))"
proof -
  from assms obtain w0 :: "('a, 'b, 'c) worker" where inv: "safe X a (tables w0) w" "written a (trace w)"
    by (rule execute_invariants) blast
  have ok: "event_ok X a (tables w0) e" if "e \<in> set (trace w)" for e
    using inv(1) that by (simp add: safe_def)
  have "compute_path_length a \<and> beam_in_gauge a" if "WriteCell i j l \<in> set (trace w)" for i j l
    using ok[OF that] by simp
  moreover have "\<exists>l. WriteCell i j l \<in> set (trace w)"
    if "Finished i j \<in> set (trace w)" "compute_path_length a \<and> beam_in_gauge a" for i j
    using inv(2) that by (auto simp: written_def)
  moreover have "path_length r = None \<longleftrightarrow> \<not> (compute_path_length a \<and> beam_in_gauge a)"
    if "Put (Result r) \<in> set (trace w)" for r
    using ok[OF that] by simp
  ultimately show ?thesis by blast
qed

section \<open>Targets of the solver\<close>

lemma map_nth_filter: "map (\<lambda>g. xs ! g) (filter (\<lambda>g. P (xs ! g)) [0..<length xs]) = filter P xs"
proof -
  have "filter P xs = filter P (map (\<lambda>g. xs ! g) [0..<length xs])"
    by (simp add: map_nth)
  also have "\<dots> = map (\<lambda>g. xs ! g) (filter (\<lambda>g. P (xs ! g)) [0..<length xs])"
    by (simp add: filter_map comp_def)
  finally show ?thesis by simp
qed

lemma selected_empty_iff: "selected mvs = [] \<longleftrightarrow> (\<forall>v \<in> set mvs. norm3 v \<le> epsilon)"
proof -
  have "selected mvs = [] \<longleftrightarrow> (\<forall>g < length mvs. \<not> epsilon < norm3 (mvs ! g))"
    by (auto simp: selected_def filter_empty_conv)
  also have "\<dots> \<longleftrightarrow> (\<forall>v \<in> set mvs. \<not> epsilon < norm3 v)"
    by (simp only: all_set_conv_all_nth)
  also have "\<dots> \<longleftrightarrow> (\<forall>v \<in> set mvs. norm3 v \<le> epsilon)"
    by (simp only: not_less)
  finally show ?thesis .
qed

lemma targets_selection:
  assumes "targets X a ps i j = Inr (qs, mvs)"
  shows "\<exists>groups. all_mvs (vectors a) i j = Inr groups
          \<and> ((\<forall>v \<in> set groups. norm3 v \<le> epsilon) \<longrightarrow>
                (\<exists>q0 rest. q_vectors a = q0 # rest \<and> qs = [q0]
                     \<and> mvs = [matmul33_col (transpose44 (pose X ps)) q0]))
          \<and> (\<not> (\<forall>v \<in> set groups. norm3 v \<le> epsilon) \<longrightarrow>
                mvs = filter (\<lambda>v. epsilon < norm3 v) groups
                \<and> qs = map (\<lambda>g. q_vectors a ! g) (selected groups))"
proof (cases "all_mvs (vectors a) i j")
  case (Inl e)
  then show ?thesis using assms by (simp add: targets_def)
next
  case (Inr groups)
  show ?thesis
  proof (cases "selected groups = []")
    case True
    then have "\<forall>v \<in> set groups. norm3 v \<le> epsilon"
      by (simp only: selected_empty_iff)
    moreover have "\<exists>q0 rest. q_vectors a = q0 # rest \<and> qs = [q0]
                     \<and> mvs = [matmul33_col (transpose44 (pose X ps)) q0]"
      using assms Inr True by (auto simp: targets_def split: list.splits)
    ultimately show ?thesis using Inr by blast
  next
    case False
    then have active: "\<not> (\<forall>v \<in> set groups. norm3 v \<le> epsilon)"
      by (simp only: selected_empty_iff not_False_eq_True)
    have "map (\<lambda>g. groups ! g) (selected groups) = filter (\<lambda>v. epsilon < norm3 v) groups"
      unfolding selected_def by (rule map_nth_filter)
    moreover have "mvs = map (\<lambda>g. groups ! g) (selected groups)
                 \<and> qs = map (\<lambda>g. q_vectors a ! g) (selected groups)"
      using assms Inr False
      by (auto simp: targets_def index_rows_def split: sum.splits if_splits)
    ultimately show ?thesis using Inr active by auto
  qed
qed

text \<open>
  C5: for every call of the solver in a run, made for task \<open>(i, j)\<close>: when some group of
  three components of \<open>vectors[i, :, j]\<close> has a norm above \<open>epsilon\<close> (\<open>1e-4\<close>), the
  measurement vectors handed to the solver are the groups with a norm above \<open>epsilon\<close>, in
  order, so that no group with a norm of at most \<open>epsilon\<close> is among them; when every group
  is inactive, the solver gets exactly one target, the first q-vector multiplied by the
  transposed rotation of the positioner's pose.
\<close>

theorem inactive_groups_are_not_targets:
  fixes X :: "('a, 'b, 'c) externals"
  assumes "execute X aborts a = E" and "ending_state E = Some w"
    and "IkineCall i j p mvs qs \<in> set (trace w)"
  shows "\<exists>groups. all_mvs (vectors a) i j = Inr groups
          \<and> ((\<forall>v \<in> set groups. norm3 v \<le> epsilon) \<longrightarrow>
                length mvs = 1
                \<and> (\<exists>ps q0 rest. q_vectors a = q0 # rest \<and> qs = [q0]
                       \<and> mvs = [matmul33_col (transpose44 (pose X ps)) q0]))
          \<and> ((\<exists>v \<in> set groups. epsilon < norm3 v) \<longrightarrow>
                mvs = filter (\<lambda>v. epsilon < norm3 v) groups
                \<and> (\<forall>v \<in> set groups. norm3 v \<le> epsilon \<longrightarrow> v \<notin> set mvs))"
proof -
  from assms(1,2) obtain w0 :: "('a, 'b, 'c) worker" where inv: "safe X a (tables w0) w"
    by (rule execute_invariants) blast
  then have "event_ok X a (tables w0) (IkineCall i j p mvs qs)"
    using assms(3) unfolding safe_def by blast
  then obtain ps where "targets X a ps i j = Inr (qs, mvs)"
    by auto
  from targets_selection[OF this] obtain groups where gd:
    "all_mvs (vectors a) i j = Inr groups
       \<and> ((\<forall>v \<in> set groups. norm3 v \<le> epsilon) \<longrightarrow>
             (\<exists>q0 rest. q_vectors a = q0 # rest \<and> qs = [q0]
                  \<and> mvs = [matmul33_col (transpose44 (pose X ps)) q0]))
       \<and> (\<not> (\<forall>v \<in> set groups. norm3 v \<le> epsilon) \<longrightarrow>
             mvs = filter (\<lambda>v. epsilon < norm3 v) groups
             \<and> qs = map (\<lambda>g. q_vectors a ! g) (selected groups))" ..
  note g = gd[THEN conjunct1]
    and fallback = gd[THEN conjunct2, THEN conjunct1]
    and chosen = gd[THEN conjunct2, THEN conjunct2]
  have one: "(\<forall>v \<in> set groups. norm3 v \<le> epsilon) \<longrightarrow>
      length mvs = 1
      \<and> (\<exists>ps q0 rest. q_vectors a = q0 # rest \<and> qs = [q0]
             \<and> mvs = [matmul33_col (transpose44 (pose X ps)) q0])"
  proof
    assume "\<forall>v \<in> set groups. norm3 v \<le> epsilon"
    from mp[OF fallback this] obtain q0 rest where f: "q_vectors a = q0 # rest" "qs = [q0]"
        "mvs = [matmul33_col (transpose44 (pose X ps)) q0]"
      by (elim exE conjE)
    show "length mvs = 1
      \<and> (\<exists>ps q0 rest. q_vectors a = q0 # rest \<and> qs = [q0]
             \<and> mvs = [matmul33_col (transpose44 (pose X ps)) q0])"
      by (intro conjI exI[of _ ps] exI[of _ q0] exI[of _ rest]) (simp_all add: f)
  qed
  have some: "(\<exists>v \<in> set groups. epsilon < norm3 v) \<longrightarrow>
      mvs = filter (\<lambda>v. epsilon < norm3 v) groups
      \<and> (\<forall>v \<in> set groups. norm3 v \<le> epsilon \<longrightarrow> v \<notin> set mvs)"
  proof
    assume "\<exists>v \<in> set groups. epsilon < norm3 v"
    then have "\<not> (\<forall>v \<in> set groups. norm3 v \<le> epsilon)"
      by (simp add: not_le)
    from mp[OF chosen this] have m: "mvs = filter (\<lambda>v. epsilon < norm3 v) groups"
      by (rule conjunct1)
    show "mvs = filter (\<lambda>v. epsilon < norm3 v) groups
      \<and> (\<forall>v \<in> set groups. norm3 v \<le> epsilon \<longrightarrow> v \<notin> set mvs)"
      by (simp add: m not_less)
  qed
  show ?thesis
    by (intro exI[of _ groups] conjI) (rule g one some)+
qed

section \<open>The mesh that is measured\<close>

lemma path_length_stage_sample:
  "path_length_stage X (a\<lparr>sample := m # ms\<rparr>) w p i j
   = path_length_stage X (a\<lparr>sample := m # ms'\<rparr>) w p i j"
  by (simp add: path_length_stage_def split: option.splits)

lemma run_task_sample:
  assumes "\<not> check_collision a"
  shows "run_task X aborts (a\<lparr>sample := m # ms\<rparr>) names w task
       = run_task X aborts (a\<lparr>sample := m # ms'\<rparr>) names w task"
proof -
  have 1: "targets X (a\<lparr>sample := s\<rparr>) = targets X a" for s
    by (simp add: targets_def fun_eq_iff split: sum.splits list.splits)
  have 2: "collision_stage X (a\<lparr>sample := s\<rparr>) = collision_stage X a" for s
    using assms by (simp add: collision_stage_def fun_eq_iff split: option.splits)
  have 3: "publish X (a\<lparr>sample := s\<rparr>) = publish X a" for s
    by (simp add: publish_def fun_eq_iff split: prod.splits option.splits)
  have 4: "after_path_length X aborts (a\<lparr>sample := s\<rparr>) = after_path_length X aborts a" for s
    by (simp add: after_path_length_def fun_eq_iff 2 3 split: option.splits)
  have 5: "after_solve X aborts (a\<lparr>sample := m # ms\<rparr>) = after_solve X aborts (a\<lparr>sample := m # ms'\<rparr>)"
    by (simp add: after_solve_def fun_eq_iff 4
        path_length_stage_sample[where ms = ms and ms' = ms'] split: option.splits)
  show ?thesis
    by (simp add: run_task_def 1 5 split: sum.splits option.splits prod.splits)
qed

lemma run_tasks_sample:
  assumes "\<not> check_collision a"
  shows "run_tasks X aborts (a\<lparr>sample := m # ms\<rparr>) names w ts
       = run_tasks X aborts (a\<lparr>sample := m # ms'\<rparr>) names w ts"
proof (induction ts arbitrary: w)
  case Nil
  show ?case by simp
next
  case (Cons t ts)
  show ?case
    by (simp add: run_task_sample[OF assms, where ms = ms and ms' = ms'] Cons.IH
        split: flow.splits)
qed

lemma execute_sample:
  assumes "\<not> check_collision a"
  shows "execute X aborts (a\<lparr>sample := m # ms\<rparr>) = execute X aborts (a\<lparr>sample := m # ms'\<rparr>)"
proof -
  have "try_block X aborts (a\<lparr>sample := m # ms\<rparr>) names w order
      = try_block X aborts (a\<lparr>sample := m # ms'\<rparr>) names w order" for names w order
    by (simp add: try_block_def run_tasks_sample[OF assms, where ms = ms and ms' = ms']
        split: flow.splits option.splits)
  then show ?thesis
    using assms by (simp add: execute_def Let_def initial_def)
qed

text \<open>
  C10: in every run, each path-length computation transforms and measures the first mesh of
  the sample list; the path-length stage of a task gives the same answer and leaves the same
  state whatever meshes follow the first; and when collisions are not checked the whole run
  is the same whatever meshes follow the first.
\<close>

theorem path_length_measures_first_mesh_only:
  fixes X :: "('a, 'b, 'c) externals"
  assumes "execute X aborts a = E" and "ending_state E = Some w"
  shows "(\<forall>mesh t. PathLengthCall mesh t \<in> set (trace w) \<longrightarrow> (\<exists>rest. sample a = mesh # rest))
       \<and> (\<forall>m ms ms' w1 t i j. path_length_stage X (a\<lparr>sample := m # ms\<rparr>) w1 t i j
                               = path_length_stage X (a\<lparr>sample := m # ms'\<rparr>) w1 t i j)
       \<and> (\<not> check_collision a \<longrightarrow>
            (\<forall>m ms ms'. execute X aborts (a\<lparr>sample := m # ms\<rparr>)
                       = execute X aborts (a\<lparr>sample := m # ms'\<rparr>)))"
proof -
  from assms obtain w0 :: "('a, 'b, 'c) worker" where inv: "safe X a (tables w0) w"
    by (rule execute_invariants) blast
  have "\<exists>rest. sample a = mesh # rest" if "PathLengthCall mesh t \<in> set (trace w)" for mesh t
    using inv that by (force simp: safe_def)
  then have 1: "\<forall>mesh t. PathLengthCall mesh t \<in> set (trace w) \<longrightarrow> (\<exists>rest. sample a = mesh # rest)"
    by blast
  have 2: "\<forall>m ms ms' w1 t i j. path_length_stage X (a\<lparr>sample := m # ms\<rparr>) w1 t i j
                               = path_length_stage X (a\<lparr>sample := m # ms'\<rparr>) w1 t i j"
    by (intro allI) (rule path_length_stage_sample)
  have 3: "\<not> check_collision a \<longrightarrow>
            (\<forall>m ms ms'. execute X aborts (a\<lparr>sample := m # ms\<rparr>)
                       = execute X aborts (a\<lparr>sample := m # ms'\<rparr>))"
    by (intro impI allI) (rule execute_sample)
  show ?thesis
    using 1 2 3 by (intro conjI)
qed

section \<open>Cancellation\<close>

lemma run_task_flagged:
  assumes "run_task X aborts a names w task = F" "event_set w"
  shows "(\<exists>w'. F = Break w' \<or> F = Raised w') \<and> queue (flow_state F) = queue w
       \<and> length (filter is_started (trace (flow_state F))) = length (filter is_started (trace w)) + 1
       \<and> filter is_put_result (trace (flow_state F)) = filter is_put_result (trace w)"
proof -
  obtain index i j where t: "task = (index, i, j)" by (cases task)
  show ?thesis
    using assms unfolding t
    by (elim run_task_cases checkpoint_cases) (auto simp: log_def)
qed

lemma run_tasks_flagged:
  assumes "run_tasks X aborts a names w ts = F" "event_set w"
  shows "queue (flow_state F) = queue w
       \<and> length (filter is_started (trace (flow_state F))) \<le> length (filter is_started (trace w)) + 1
       \<and> filter is_put_result (trace (flow_state F)) = filter is_put_result (trace w)"
proof (cases ts)
  case Nil
  then show ?thesis using assms by auto
next
  case (Cons t rest)
  from run_task_flagged[OF refl assms(2), of X aborts a names t]
  show ?thesis using assms(1) Cons by auto
qed

text \<open>
  C3, amended: every message that was on the queue stays on it; the first call of
  \<open>is_set()\<close> that finds the event set ends the loop there, with nothing after it in the
  trace but the closing log line, so the task it interrupts publishes no result; and when
  the event is already set on entry, at most one task is begun and no result is published.
\<close>

theorem cancellation_stops_at_next_checkpoint:
  fixes X :: "('a, 'b, 'c) externals"
  assumes "execute X aborts a = E" and "ending_state E = Some w"
  shows "(\<exists>new. queue w = results a @ new)
       \<and> (IsSet True \<in> set (trace w) \<longrightarrow>
            E = Cancelled w
            \<and> (\<exists>before. trace w = before @ [IsSet True, SimulationFinished]
                   \<and> IsSet True \<notin> set before))
       \<and> (exit_event a \<longrightarrow>
            length (filter is_started (trace w)) \<le> 1 \<and> filter is_put_result (trace w) = [])"
proof -
  let ?ts = "enumerate_order (task_order (align_first_order a) (shape0 (vectors a)) (shape2 (vectors a)))"
  from assms obtain w0 :: "('a, 'b, 'c) worker" where w0:
    "trace w0 = []" "queue w0 = results a" "event_set w0 = exit_event a"
    and post: "case run_tasks X aborts a (link_names X (positioner a)) w0 ?ts of
       Next w' \<Rightarrow> E = Exhausted w \<and> queue w = queue w' \<and> trace w = trace w' @ [SimulationFinished]
                    \<and> manager w = manager w'
     | Break w' \<Rightarrow> E = Cancelled w \<and> queue w = queue w' \<and> trace w = trace w' @ [SimulationFinished]
                    \<and> manager w = manager w'
     | Stuck w' \<Rightarrow> E = Blocked w \<and> w = w'
     | Raised w' \<Rightarrow>
         ((E = Faulted w \<and> queue w = queue w' @ [ErrorString]
            \<and> trace w = trace w' @ [ExceptionLogged, Put ErrorString])
         \<or> (E = Blocked w \<and> queue w = queue w' \<and> trace w = trace w' @ [ExceptionLogged]))
         \<and> manager w = manager w'"
    by (rule execute_invariants) blast
  let ?F = "run_tasks X aborts a (link_names X (positioner a)) w0 ?ts"
  obtain rs where rs: "queue (flow_state ?F) = queue w0 @ map Result rs"
    using run_tasks_queue[OF refl, of X aborts a "link_names X (positioner a)" w0 ?ts] by blast
  have 1: "\<exists>new. queue w = results a @ new"
    using rs post w0(2) by (cases ?F) auto
  have c: "cancel_post ?F"
    by (rule run_tasks_cancel[OF refl]) (simp add: w0(1))
  have 2: "IsSet True \<in> set (trace w) \<longrightarrow>
            E = Cancelled w
            \<and> (\<exists>before. trace w = before @ [IsSet True, SimulationFinished]
                   \<and> IsSet True \<notin> set before)"
    using c post by (cases ?F) (auto simp: cancel_post_def)
  have 3: "length (filter is_started (trace w)) \<le> 1 \<and> filter is_put_result (trace w) = []"
    if "exit_event a"
  proof -
    have "event_set w0" using that w0(3) by simp
    from run_tasks_flagged[OF refl this, of X aborts a "link_names X (positioner a)" ?ts]
    show ?thesis using post w0(1) by (cases ?F) auto
  qed
  show ?thesis using 1 2 3 by blast
qed

section \<open>The expected count and an uninterrupted run\<close>

lemma length_nonzero: "length (nonzero ks) = length (filter (\<lambda>b. b) ks)"
proof -
  have "map (\<lambda>g. ks ! g) (nonzero ks) = filter (\<lambda>b. b) ks"
    unfolding nonzero_def by (rule map_nth_filter)
  from arg_cong[OF this, of length] show ?thesis by simp
qed

lemma length_enabled: "length (nonzero (map snd pts)) = length (filter snd pts)"
  by (simp add: length_nonzero filter_map comp_def)

lemma init_args:
  assumes "Simulation_init S X instr smp pts vecs algn = Inr sim"
  shows "count sim = length (filter snd pts) * shape2 vecs"
    and "shape0 (vectors (sim_args sim)) = length (filter snd pts)"
    and "shape2 (vectors (sim_args sim)) = shape2 vecs"
    and "results (sim_args sim) = []"
    and "align_first_order (sim_args sim) = Align_First S"
    and "results_maxsize (sim_args sim) = count sim + 1"
    and "length pts = shape0 vecs"
  using assms
  by (auto simp: Simulation_init_def mask_rows_def Let_def length_enabled split: if_splits)

text \<open>
  C1: a configuration that constructs has a \<open>count\<close> of the number of enabled points times
  the number of alignments; and whatever the feature flags are set to afterwards, a run that
  works through the whole task list (it left the loop neither at a checkpoint nor through
  the exception handler) leaves exactly \<open>count\<close> results on the queue, one per task, in the
  order of the enumeration, each with the alignment index and the label of its task.
\<close>

theorem count_and_uninterrupted_run:
  fixes X :: "('a, 'b, 'c) externals"
  assumes "Simulation_init S X instr smp pts vecs algn = Inr sim"
    and "a = sim_args (set_check_limits b1 (set_render_graphics b2 (set_check_collision b3
               (set_compute_path_length b4 sim))))"
    and "execute X aborts a = Exhausted w"
  shows "count sim = length (filter snd pts) * shape2 vecs
       \<and> (\<exists>rs. queue w = map Result rs \<and> length rs = count sim
             \<and> map alignment rs
                 = map snd (task_order (Align_First S) (length (filter snd pts)) (shape2 vecs))
             \<and> map result_id rs
                 = map (\<lambda>(index, i, j). label (shape2 vecs) index i j)
                     (enumerate_order
                        (task_order (Align_First S) (length (filter snd pts)) (shape2 vecs))))"
proof -
  note i = init_args[OF assms(1)]
  have a: "shape0 (vectors a) = length (filter snd pts)" "shape2 (vectors a) = shape2 vecs"
    "results a = []" "align_first_order a = Align_First S"
    using i unfolding assms(2)
    by (simp_all add: set_check_limits_def set_render_graphics_def set_check_collision_def
        set_compute_path_length_def)
  let ?order = "task_order (Align_First S) (length (filter snd pts)) (shape2 vecs)"
  let ?ts = "enumerate_order ?order"
  have st: "ending_state (Exhausted w) = Some w" by simp
  from assms(3) st obtain w0 :: "('a, 'b, 'c) worker" where w0: "queue w0 = results a"
    and post: "case run_tasks X aborts a (link_names X (positioner a)) w0
         (enumerate_order (task_order (align_first_order a) (shape0 (vectors a)) (shape2 (vectors a)))) of
       Next w' \<Rightarrow> Exhausted w = Exhausted w \<and> queue w = queue w' \<and> trace w = trace w' @ [SimulationFinished]
                    \<and> manager w = manager w'
     | Break w' \<Rightarrow> Exhausted w = Cancelled w \<and> queue w = queue w' \<and> trace w = trace w' @ [SimulationFinished]
                    \<and> manager w = manager w'
     | Stuck w' \<Rightarrow> Exhausted w = Blocked w \<and> w = w'
     | Raised w' \<Rightarrow>
         ((Exhausted w = Faulted w \<and> queue w = queue w' @ [ErrorString]
            \<and> trace w = trace w' @ [ExceptionLogged, Put ErrorString])
         \<or> (Exhausted w = Blocked w \<and> queue w = queue w' \<and> trace w = trace w' @ [ExceptionLogged]))
         \<and> manager w = manager w'"
    by (rule execute_invariants) blast
  let ?F = "run_tasks X aborts a (link_names X (positioner a)) w0 ?ts"
  from post obtain w' where F: "?F = Next w'" and q: "queue w = queue w'"
    unfolding a by (cases ?F) auto
  from run_tasks_queue[OF F] obtain rs where rs:
    "queue w' = queue w0 @ map Result rs"
    "map alignment rs = map task_alignment (take (length rs) ?ts)"
    "map result_id rs = map (task_label a) (take (length rs) ?ts)"
    "length rs = length ?ts"
    by auto
  have len: "length ?ts = length (filter snd pts) * shape2 vecs"
    by (simp add: enumerate_order_def length_task_order)
  have al: "map task_alignment ?ts = map snd ?order"
    by (auto simp: enumerate_order_def task_alignment_def case_prod_beta intro!: nth_equalityI)
  have lb: "map (task_label a) ?ts = map (\<lambda>(index, i, j). label (shape2 vecs) index i j) ?ts"
    by (auto simp: task_label_def fun_eq_iff a)
  show ?thesis
    using rs q w0 a(3) i(1) len al lb
    by (intro conjI exI[of _ rs]) simp_all
qed

section \<open>Polling\<close>

lemma drain_sentinel_last: "NoneSentinel \<notin> set xs \<Longrightarrow> drain (xs @ [NoneSentinel]) = Some (xs, [])"
  by (induction xs rule: drain.induct) auto

text \<open>
  C8: for a started simulation whose queue holds no stale \<open>None\<close> and is not full (the
  Worker puts at most \<open>count\<close> messages on a queue of capacity \<open>count + 1\<close>, and each call of
  \<open>CheckResult\<close> takes its own \<open>None\<close> off again): a call that finds the queue empty changes
  nothing and emits nothing; a call that finds messages appends all of them to the results in
  arrival order, empties the queue and emits \<open>result_updated\<close> once; and the call after a
  call, with nothing new in between, changes nothing and emits nothing.
\<close>

theorem CheckResult_idempotent_without_new_data:
  assumes "NoneSentinel \<notin> set (results (sim_args sim))"
    and "results_maxsize (sim_args sim) = 0
         \<or> length (results (sim_args sim)) < results_maxsize (sim_args sim)"
    and "process sim = Some alive"
  shows "(results (sim_args sim) = [] \<longrightarrow> CheckResult sim = Returns sim)
       \<and> (results (sim_args sim) \<noteq> [] \<longrightarrow>
            CheckResult sim
            = Returns ((if alive then sim else sim\<lparr>timer := False\<rparr>)
                \<lparr>sim_args := (sim_args sim)\<lparr>results := []\<rparr>,
                 sim_results := sim_results sim @ results (sim_args sim),
                 result_updated := result_updated sim + 1\<rparr>))
       \<and> (\<exists>sim'. CheckResult sim = Returns sim' \<and> results (sim_args sim') = []
              \<and> CheckResult sim' = Returns sim')"
proof -
  have e: "CheckResult s = Returns s" if "results (sim_args s) = []" for s :: "('a, 'b, 'c) simulation"
    using that by (simp add: CheckResult_def)
  have n: "CheckResult sim
            = Returns ((if alive then sim else sim\<lparr>timer := False\<rparr>)
                \<lparr>sim_args := (sim_args sim)\<lparr>results := []\<rparr>,
                 sim_results := sim_results sim @ results (sim_args sim),
                 result_updated := result_updated sim + 1\<rparr>)"
    if "results (sim_args sim) \<noteq> []"
    using that assms drain_sentinel_last[OF assms(1)]
    by (auto simp: CheckResult_def queue_put_def Let_def)
  show ?thesis
  proof (cases "results (sim_args sim) = []")
    case True
    then show ?thesis using e[of sim] by auto
  next
    case False
    let ?s = "(if alive then sim else sim\<lparr>timer := False\<rparr>)
                \<lparr>sim_args := (sim_args sim)\<lparr>results := []\<rparr>,
                 sim_results := sim_results sim @ results (sim_args sim),
                 result_updated := result_updated sim + 1\<rparr>"
    have "results (sim_args ?s) = []" by simp
    then have "CheckResult ?s = Returns ?s" by (rule e)
    then show ?thesis using n[OF False] False by auto
  qed
qed

end
